theory Spec2Isabelle
  imports Complex_Main
begin

section \<open>Embedding of main.py: the simulation and control core\<close>

text \<open>
  Python numbers that can be floats (positions, velocities, times, speeds) are modelled
  as \<open>real\<close>: the arithmetic is the exact one, rounding is not modelled. Numbers that
  the program keeps integral (the score, the gap size handed to \<open>random.randint\<close>)
  are \<open>int\<close>. The wall clock read by \<open>time.time()\<close> and the draws of
  \<open>random.randint\<close> are inputs of the functions that use them. Widgets, labels, sound
  and the Kivy clock carry no game state and are left out.
\<close>

subsection \<open>Constants\<close>

definition WINDOW_WIDTH :: int where "WINDOW_WIDTH = 400"
definition WINDOW_HEIGHT :: int where "WINDOW_HEIGHT = 600"
definition GRAVITY :: real where "GRAVITY = - 480"
definition FLAP_VELOCITY :: real where "FLAP_VELOCITY = 380"
definition BIRD_SIZE :: "real \<times> real" where "BIRD_SIZE = (64, 64)"
definition MIN_FLAP_INTERVAL :: real where "MIN_FLAP_INTERVAL = 18 / 100"
definition PIPE_MIN_GAP_Y :: int where "PIPE_MIN_GAP_Y = 60"

record difficulty_set =
  PIPE_SPEED :: real
  PIPE_GAP :: int
  PIPE_SPAWN_INTERVAL :: real
  INITIAL_SPACING_MULT :: real

definition EASY :: difficulty_set where
  "EASY = \<lparr>PIPE_SPEED = 80, PIPE_GAP = 300, PIPE_SPAWN_INTERVAL = 4,
            INITIAL_SPACING_MULT = 13 / 10\<rparr>"

definition HARD :: difficulty_set where
  "HARD = \<lparr>PIPE_SPEED = 180, PIPE_GAP = 200, PIPE_SPAWN_INTERVAL = 2,
            INITIAL_SPACING_MULT = 105 / 100\<rparr>"

definition RAMP_MAX_ADDITIONAL_SPEED :: real where "RAMP_MAX_ADDITIONAL_SPEED = 80"
definition RAMP_MAX_GAP_REDUCTION :: real where "RAMP_MAX_GAP_REDUCTION = 50"

subsection \<open>Python primitives\<close>

datatype py_error = ZeroDivisionError | ValueError

text \<open>\<open>int(x)\<close> on a float truncates towards zero.\<close>

definition py_int :: "real \<Rightarrow> int" where
  "py_int v = (if 0 \<le> v then \<lfloor>v\<rfloor> else \<lceil>v\<rceil>)"

text \<open>\<open>a / b\<close> raises ZeroDivisionError when \<open>b\<close> is zero.\<close>

definition py_div :: "real \<Rightarrow> real \<Rightarrow> py_error + real" where
  "py_div a b = (if b = 0 then Inl ZeroDivisionError else Inr (a / b))"

text \<open>
  \<open>random.randint(lo, hi)\<close> raises ValueError on an empty range and otherwise returns
  an integer of \<open>[lo, hi]\<close>. The generator's draw is the input \<open>r\<close>; every integer of
  the range is the result of some draw.
\<close>

definition randint :: "int \<Rightarrow> int \<Rightarrow> int \<Rightarrow> py_error + int" where
  "randint lo hi r = (if lo \<le> hi then Inr (lo + r mod (hi - lo + 1)) else Inl ValueError)"

subsection \<open>class Bird\<close>

record bird =
  bird_x :: real
  bird_y :: real
  bird_width :: real
  bird_height :: real
  velocity :: real

definition physics_step :: "real \<Rightarrow> bird \<Rightarrow> bird" where
  "physics_step dt b =
     (let v = velocity b + GRAVITY * dt
      in b\<lparr>velocity := v, bird_y := bird_y b + v * dt\<rparr>)"

definition flap :: "bird \<Rightarrow> bird" where
  "flap b = b\<lparr>velocity := FLAP_VELOCITY\<rparr>"

definition top :: "bird \<Rightarrow> real" where
  "top b = bird_y b + bird_height b"

subsection \<open>class PipePair\<close>

record pipe_pair =
  pipe_x :: real
  width_pipe :: real
  gap_size :: real
  gap_y :: real
  screen_height :: real
  bottom_height :: real
  top_pos :: real
  top_height :: real
  scored :: bool

definition PipePair :: "real \<Rightarrow> real \<Rightarrow> real \<Rightarrow> real \<Rightarrow> real \<Rightarrow> pipe_pair" where
  "PipePair sx gy gs w sh =
     \<lparr>pipe_x = sx, width_pipe = w, gap_size = gs, gap_y = gy, screen_height = sh,
      bottom_height = gy, top_pos = gy + gs, top_height = sh - (gy + gs),
      scored = False\<rparr>"

definition right :: "pipe_pair \<Rightarrow> real" where
  "right p = pipe_x p + width_pipe p"

definition move :: "real \<Rightarrow> pipe_pair \<Rightarrow> pipe_pair" where
  "move dx p = p\<lparr>pipe_x := pipe_x p + dx\<rparr>"

definition aabb :: "real \<Rightarrow> real \<Rightarrow> real \<Rightarrow> real \<Rightarrow> real \<Rightarrow> real \<Rightarrow> real \<Rightarrow> real \<Rightarrow> bool" where
  "aabb x1 y1 w1 h1 x2 y2 w2 h2 \<longleftrightarrow>
     x1 < x2 + w2 \<and> x1 + w1 > x2 \<and> y1 < y2 + h2 \<and> y1 + h1 > y2"

definition collides_with :: "pipe_pair \<Rightarrow> real \<Rightarrow> real \<Rightarrow> real \<Rightarrow> real \<Rightarrow> bool" where
  "collides_with p ax ay aw ah \<longleftrightarrow>
     aabb ax ay aw ah (pipe_x p) 0 (width_pipe p) (bottom_height p)
     \<or> aabb ax ay aw ah (pipe_x p) (top_pos p) (width_pipe p) (top_height p)"

subsection \<open>class FlappyGame: state, flap debounce\<close>

record flappy_game =
  score :: int
  game_over :: bool
  running :: bool
  bird :: bird
  pipes :: "pipe_pair list"
  time_since_last_spawn :: real
  last_flap_time :: real
  current_pipe_speed :: real
  current_pipe_gap :: int
  current_spawn_interval :: real
  initial_spacing_mult :: real
  autoplay :: bool

text \<open>\<open>_can_flap_now\<close>: \<open>now\<close> is the value of \<open>time.time()\<close> at the call.\<close>

definition can_flap_now :: "real \<Rightarrow> flappy_game \<Rightarrow> bool \<times> flappy_game" where
  "can_flap_now now g =
     (if now - last_flap_time g \<ge> MIN_FLAP_INTERVAL
      then (True, g\<lparr>last_flap_time := now\<rparr>)
      else (False, g))"

text \<open>\<open>_flap\<close>; the sound played after an accepted flap is not part of the state.\<close>

definition game_flap :: "real \<Rightarrow> flappy_game \<Rightarrow> flappy_game" where
  "game_flap now g =
     (case can_flap_now now g of
        (False, g') \<Rightarrow> g'
      | (True, g') \<Rightarrow> g'\<lparr>bird := flap (bird g')\<rparr>)"

subsection \<open>Predictive multi-flap controller\<close>

datatype event_type = Flap | End

text \<open>The event list of \<open>_predict_center_with_flaps\<close>, before it is sorted.\<close>

definition flap_events :: "real \<Rightarrow> nat \<Rightarrow> (event_type \<times> real) list" where
  "flap_events time_to_pipe n_flaps =
     (if n_flaps \<ge> 1
      then map (\<lambda>t. (Flap, t))
             (filter (\<lambda>t. t < time_to_pipe)
                (map (\<lambda>i. real i * MIN_FLAP_INTERVAL) [0..<n_flaps]))
      else [])
     @ [(End, time_to_pipe)]"

text \<open>The loop over the sorted events; it carries \<open>y\<close>, \<open>v\<close> and \<open>t_prev\<close>.\<close>

fun integrate_events :: "(event_type \<times> real) list \<Rightarrow> real \<Rightarrow> real \<Rightarrow> real \<Rightarrow> real" where
  "integrate_events [] y v t_prev = y"
| "integrate_events ((event_type, t_event) # es) y v t_prev =
     (let dt = t_event - t_prev;
          y' = y + v * dt + 0.5 * GRAVITY * dt\<^sup>2;
          v' = v + GRAVITY * dt;
          v'' = (if event_type = Flap then FLAP_VELOCITY else v')
      in integrate_events es y' v'' t_event)"

definition predict_center_with_flaps :: "flappy_game \<Rightarrow> real \<Rightarrow> nat \<Rightarrow> real" where
  "predict_center_with_flaps g time_to_pipe n_flaps =
     integrate_events (sort_key snd (flap_events time_to_pipe n_flaps))
       (bird_y (bird g)) (velocity (bird g)) 0
     + bird_height (bird g) / 2"

text \<open>
  The two searches of \<open>_autoflap_logic\<close> over \<open>k = 0..3\<close>: the first \<open>k\<close> whose
  predicted centre lies in the gap shrunk by the margin, and otherwise the \<open>k\<close> of
  least distance to the gap centre (\<open>best_dist\<close> starts at infinity, here \<open>None\<close>).
\<close>

definition margin :: real where "margin = 6"
definition max_flaps :: nat where "max_flaps = 3"

definition inside_gap :: "flappy_game \<Rightarrow> pipe_pair \<Rightarrow> real \<Rightarrow> nat \<Rightarrow> bool" where
  "inside_gap g next_pipe time_to_pipe k =
     (let gap_center = gap_y next_pipe + gap_size next_pipe / 2;
          predicted_center = predict_center_with_flaps g time_to_pipe k
      in gap_center - gap_size next_pipe / 2 + margin \<le> predicted_center
         \<and> predicted_center \<le> gap_center + gap_size next_pipe / 2 - margin)"

definition closest_step ::
  "flappy_game \<Rightarrow> pipe_pair \<Rightarrow> real \<Rightarrow> nat \<Rightarrow> nat option \<times> real option
     \<Rightarrow> nat option \<times> real option" where
  "closest_step g next_pipe time_to_pipe k best =
     (let gap_center = gap_y next_pipe + gap_size next_pipe / 2;
          dist = \<bar>predict_center_with_flaps g time_to_pipe k - gap_center\<bar>
      in if (case snd best of None \<Rightarrow> True | Some best_dist \<Rightarrow> dist < best_dist)
         then (Some k, Some dist) else best)"

definition chosen_flaps :: "flappy_game \<Rightarrow> pipe_pair \<Rightarrow> real \<Rightarrow> nat option" where
  "chosen_flaps g next_pipe time_to_pipe =
     (case find (inside_gap g next_pipe time_to_pipe) [0..<max_flaps + 1] of
        Some k \<Rightarrow> Some k
      | None \<Rightarrow>
          fst (fold (closest_step g next_pipe time_to_pipe) [0..<max_flaps + 1] (None, None)))"

definition next_pipe_ahead :: "flappy_game \<Rightarrow> pipe_pair option" where
  "next_pipe_ahead g = find (\<lambda>p. pipe_x p + width_pipe p > bird_x (bird g)) (pipes g)"

definition autoflap_logic :: "real \<Rightarrow> flappy_game \<Rightarrow> py_error + flappy_game" where
  "autoflap_logic now g =
     (if pipes g = [] \<or> \<not> running g \<or> game_over g then Inr g
      else case next_pipe_ahead g of
        None \<Rightarrow> Inr g
      | Some next_pipe \<Rightarrow>
          (let horiz_dist = pipe_x next_pipe - bird_x (bird g)
           in if current_pipe_speed g \<le> 0 then Inr g
              else case py_div horiz_dist (current_pipe_speed g) of
                Inl e \<Rightarrow> Inl e
              | Inr time_to_pipe \<Rightarrow>
                  (case chosen_flaps g next_pipe time_to_pipe of
                     None \<Rightarrow> Inr g
                   | Some k \<Rightarrow> if k \<ge> 1 then Inr (game_flap now g) else Inr g)))"

subsection \<open>Game logic\<close>

definition launch_y :: "bird \<Rightarrow> real" where
  "launch_y b = of_int (WINDOW_HEIGHT div 2) - of_int \<lfloor>bird_height b / 2\<rfloor>"

text \<open>
  \<open>start_game\<close>; \<open>r0\<close> and \<open>r1\<close> are the draws of the two calls of
  \<open>random.randint\<close>. The difficulty fields are read, not written.
\<close>

definition start_game :: "int \<Rightarrow> int \<Rightarrow> flappy_game \<Rightarrow> py_error + flappy_game" where
  "start_game r0 r1 g =
     (let g1 = g\<lparr>pipes := [], score := 0, game_over := False, running := True,
                 time_since_last_spawn := 0,
                 bird := (bird g)\<lparr>bird_x := 100, bird_y := launch_y (bird g), velocity := 0\<rparr>\<rparr>;
          spacing = py_int (of_int WINDOW_WIDTH * initial_spacing_mult g1);
          lo = PIPE_MIN_GAP_Y + 20;
          hi = WINDOW_HEIGHT - current_pipe_gap g1 - 40;
          w = of_int (py_int (of_int WINDOW_WIDTH * (12 / 100)))
      in case randint lo hi r0 of
           Inl e \<Rightarrow> Inl e
         | Inr gy0 \<Rightarrow>
             (case randint lo hi r1 of
                Inl e \<Rightarrow> Inl e
              | Inr gy1 \<Rightarrow>
                  Inr (g1\<lparr>pipes :=
                     [PipePair (of_int (WINDOW_WIDTH + 0 * spacing)) (of_int gy0)
                        (of_int (current_pipe_gap g1)) w (of_int WINDOW_HEIGHT),
                      PipePair (of_int (WINDOW_WIDTH + 1 * spacing)) (of_int gy1)
                        (of_int (current_pipe_gap g1)) w (of_int WINDOW_HEIGHT)]\<rparr>)))"

definition end_game :: "flappy_game \<Rightarrow> flappy_game" where
  "end_game g = g\<lparr>game_over := True, running := False\<rparr>"

text \<open>
  The difficulty parameters that \<open>_apply_difficulty\<close> computes from the score. The
  Python expressions accept any number as score, so the function is stated on \<open>real\<close>;
  the game applies it to its integer score.
\<close>

definition difficulty_for :: "real \<Rightarrow> difficulty_set" where
  "difficulty_for s =
     (if s < 30 then EASY
      else let extra = max 0 (s - 30);
               ramp_factor = min 1 (extra / 50)
           in \<lparr>PIPE_SPEED = PIPE_SPEED HARD + RAMP_MAX_ADDITIONAL_SPEED * ramp_factor,
               PIPE_GAP = py_int (max 60 (of_int (PIPE_GAP HARD)
                                            - RAMP_MAX_GAP_REDUCTION * ramp_factor)),
               PIPE_SPAWN_INTERVAL = max (9 / 10) (PIPE_SPAWN_INTERVAL HARD - (8 / 10) * ramp_factor),
               INITIAL_SPACING_MULT = INITIAL_SPACING_MULT HARD\<rparr>)"

definition apply_difficulty :: "flappy_game \<Rightarrow> flappy_game" where
  "apply_difficulty g =
     (let d = difficulty_for (of_int (score g))
      in g\<lparr>current_pipe_speed := PIPE_SPEED d,
           current_pipe_gap := PIPE_GAP d,
           current_spawn_interval := PIPE_SPAWN_INTERVAL d,
           initial_spacing_mult := INITIAL_SPACING_MULT d\<rparr>)"

text \<open>The loop of \<open>_update\<close> that moves every pipe and removes those far behind.\<close>

definition advance_pipes :: "real \<Rightarrow> pipe_pair list \<Rightarrow> pipe_pair list" where
  "advance_pipes dx ps = filter (\<lambda>p. \<not> right p < - 50) (map (move dx) ps)"

text \<open>The body of the spawn branch of \<open>_update\<close>; \<open>r\<close> is the draw of \<open>randint\<close>.\<close>

definition spawn_pipe :: "int \<Rightarrow> flappy_game \<Rightarrow> py_error + flappy_game" where
  "spawn_pipe r g =
     (let rightmost = (if pipes g \<noteq> [] then Max (set (map pipe_x (pipes g))) else 0);
          spawn_x = max (of_int (WINDOW_WIDTH + 20))
                        (rightmost + of_int (py_int (of_int WINDOW_WIDTH * (7 / 10))))
      in case randint (PIPE_MIN_GAP_Y + 10) (WINDOW_HEIGHT - current_pipe_gap g - 30) r of
           Inl e \<Rightarrow> Inl e
         | Inr gy \<Rightarrow>
             Inr (g\<lparr>pipes := pipes g @
                      [PipePair spawn_x (of_int gy) (of_int (current_pipe_gap g))
                         (of_int (py_int (of_int WINDOW_WIDTH * (12 / 100))))
                         (of_int WINDOW_HEIGHT)],
                    time_since_last_spawn := 0\<rparr>))"

text \<open>The accumulation of the tick's time and the spawn branch of \<open>_update\<close>.\<close>

definition spawn_phase :: "real \<Rightarrow> int \<Rightarrow> flappy_game \<Rightarrow> py_error + flappy_game" where
  "spawn_phase dt r g =
     (let g' = g\<lparr>time_since_last_spawn := time_since_last_spawn g + dt\<rparr>
      in if time_since_last_spawn g' \<ge> current_spawn_interval g'
         then spawn_pipe r g' else Inr g')"

text \<open>
  The scoring statement of the final loop of \<open>_update\<close>, for one pipe: the pipe
  with its flag, and the increment of the score.
\<close>

definition score_one :: "real \<Rightarrow> pipe_pair \<Rightarrow> pipe_pair \<times> int" where
  "score_one ax p =
     (if \<not> scored p \<and> right p < ax then (p\<lparr>scored := True\<rparr>, 1) else (p, 0))"

text \<open>
  The final loop of \<open>_update\<close> over the pipes: the overlap test of a pipe, which ends
  the loop, then the scoring of that pipe. The result is the pipes with their flags,
  the score, and whether an overlap ended the loop.
\<close>

fun check_pipes ::
  "real \<Rightarrow> real \<Rightarrow> real \<Rightarrow> real \<Rightarrow> pipe_pair list \<Rightarrow> int \<Rightarrow> pipe_pair list \<times> int \<times> bool" where
  "check_pipes ax ay aw ah [] sc = ([], sc, False)"
| "check_pipes ax ay aw ah (p # ps) sc =
     (if collides_with p ax ay aw ah then (p # ps, sc, True)
      else case score_one ax p of
        (p', inc) \<Rightarrow>
          (case check_pipes ax ay aw ah ps (sc + inc) of
             (ps', sc', hit) \<Rightarrow> (p' # ps', sc', hit)))"

definition collision_scoring :: "flappy_game \<Rightarrow> flappy_game" where
  "collision_scoring g =
     (case check_pipes (bird_x (bird g)) (bird_y (bird g))
             (bird_width (bird g)) (bird_height (bird g)) (pipes g) (score g) of
        (ps, sc, hit) \<Rightarrow>
          (if hit then end_game else id) (g\<lparr>pipes := ps, score := sc\<rparr>))"

text \<open>\<open>_update\<close>: one tick of \<open>dt\<close> seconds.\<close>

definition update :: "real \<Rightarrow> real \<Rightarrow> int \<Rightarrow> flappy_game \<Rightarrow> py_error + flappy_game" where
  "update dt now r g =
     (if \<not> running g \<or> game_over g then Inr g
      else
        let g1 = apply_difficulty g;
            g2 = g1\<lparr>bird := physics_step dt (bird g1)\<rparr>
        in if bird_y (bird g2) \<le> 0
           then Inr (end_game (g2\<lparr>bird := (bird g2)\<lparr>bird_y := 0\<rparr>\<rparr>))
           else if top (bird g2) \<ge> of_int WINDOW_HEIGHT
           then Inr (end_game (g2\<lparr>bird := (bird g2)\<lparr>bird_y :=
                                  of_int WINDOW_HEIGHT - bird_height (bird g2)\<rparr>\<rparr>))
           else
             let dx = - current_pipe_speed g2 * dt;
                 g3 = g2\<lparr>pipes := advance_pipes dx (pipes g2)\<rparr>
             in case spawn_phase dt r g3 of
                  Inl e \<Rightarrow> Inl e
                | Inr g4 \<Rightarrow>
                    (case (if autoplay g4 then autoflap_logic now g4 else Inr g4) of
                       Inl e \<Rightarrow> Inl e
                     | Inr g5 \<Rightarrow> Inr (collision_scoring g5)))"

text \<open>The state that \<open>FlappyGame.__init__\<close> builds.\<close>

definition init_game :: flappy_game where
  "init_game =
     \<lparr>score = 0, game_over = False, running = False,
      bird = \<lparr>bird_x = 100,
              bird_y = of_int (WINDOW_HEIGHT div 2) - of_int \<lfloor>snd BIRD_SIZE / 2\<rfloor>,
              bird_width = fst BIRD_SIZE, bird_height = snd BIRD_SIZE, velocity = 0\<rparr>,
      pipes = [], time_since_last_spawn = 0, last_flap_time = 0,
      current_pipe_speed = PIPE_SPEED EASY, current_pipe_gap = PIPE_GAP EASY,
      current_spawn_interval = PIPE_SPAWN_INTERVAL EASY,
      initial_spacing_mult = INITIAL_SPACING_MULT EASY, autoplay = False\<rparr>"

text \<open>A running game whose bird falls fast, for examples.\<close>

definition falling_game :: flappy_game where
  "falling_game = init_game\<lparr>running := True, bird := (bird init_game)\<lparr>velocity := - 500\<rparr>\<rparr>"

subsection \<open>Notions used to state the properties\<close>

text \<open>The area of the intersection of two boxes given by corner, width and height.\<close>

definition overlap_area ::
  "real \<Rightarrow> real \<Rightarrow> real \<Rightarrow> real \<Rightarrow> real \<Rightarrow> real \<Rightarrow> real \<Rightarrow> real \<Rightarrow> real" where
  "overlap_area x1 y1 w1 h1 x2 y2 w2 h2 =
     max 0 (min (x1 + w1) (x2 + w2) - max x1 x2) * max 0 (min (y1 + h1) (y2 + h2) - max y1 y2)"


text \<open>
  The autopilot scenario of the specification: the bird's centre at 300 (so \<open>y = 268\<close>
  for the height 64) with velocity 0, one pipe with gap centre 300 and gap size 200, at
  distance 80 with speed 80, so that the time to the pipe is 1.
\<close>

definition scenario_pipe :: pipe_pair where
  "scenario_pipe = PipePair 180 200 200 48 600"

definition scenario_game :: flappy_game where
  "scenario_game = init_game\<lparr>running := True, autoplay := True, pipes := [scenario_pipe]\<rparr>"

text \<open>A pipe without its flag: two pipes of the same geometry differ in \<open>scored\<close> only.\<close>

definition geometry :: "pipe_pair \<Rightarrow> pipe_pair" where
  "geometry p = p\<lparr>scored := False\<rparr>"

text \<open>
  The state of \<open>_update\<close> after the difficulty and the physics step, and after the
  loop that moves and removes pipes.
\<close>

definition after_physics :: "real \<Rightarrow> flappy_game \<Rightarrow> flappy_game" where
  "after_physics dt g = (apply_difficulty g)\<lparr>bird := physics_step dt (bird g)\<rparr>"

definition after_advance :: "real \<Rightarrow> flappy_game \<Rightarrow> flappy_game" where
  "after_advance dt g =
     (after_physics dt g)\<lparr>pipes :=
        advance_pipes (- current_pipe_speed (after_physics dt g) * dt) (pipes g)\<rparr>"


text \<open>
  The state left by a run that ended at score 80: the last tick stored the difficulty of
  that score before the run ended.
\<close>

definition hard_run_end :: flappy_game where
  "hard_run_end = end_game (apply_difficulty (init_game\<lparr>running := True, score := 80\<rparr>))"

text \<open>
  Pipes as \<open>start_game\<close> and the spawn branch place them: width 48, in the order of
  the list, each at least 280 to the right of the one before.
\<close>

definition spaced_pipes :: "pipe_pair list \<Rightarrow> bool" where
  "spaced_pipes ps \<longleftrightarrow>
     list_all (\<lambda>p. width_pipe p = 48) ps \<and> sorted_wrt (\<lambda>p q. pipe_x p + 280 \<le> pipe_x q) ps"

text \<open>
  The bird at \<open>x = 100\<close> with width 64, the pipes spaced, and difficulty fields in the
  range of \<open>_apply_difficulty\<close>.
\<close>

definition spaced :: "flappy_game \<Rightarrow> bool" where
  "spaced g \<longleftrightarrow>
     bird_x (bird g) = 100 \<and> bird_width (bird g) = 64
     \<and> spaced_pipes (pipes g)
     \<and> (initial_spacing_mult g = 13 / 10 \<or> initial_spacing_mult g = 105 / 100)
     \<and> current_pipe_gap g \<le> 300"

text \<open>
  The states the program can be in: the initial one, and those reached by a start or
  restart, a tick, a flap request or a toggle of the autopilot, with any clock value,
  tick length and random draw.
\<close>

inductive reachable :: "flappy_game \<Rightarrow> bool" where
  reach_init: "reachable init_game"
| reach_start: "reachable g \<Longrightarrow> start_game r0 r1 g = Inr g' \<Longrightarrow> reachable g'"
| reach_tick: "reachable g \<Longrightarrow> update dt now r g = Inr g' \<Longrightarrow> reachable g'"
| reach_flap: "reachable g \<Longrightarrow> reachable (game_flap now g)"
| reach_toggle: "reachable g \<Longrightarrow> reachable (g\<lparr>autoplay := \<not> autoplay g\<rparr>)"

text \<open>
  The order of the tick as the specification words it, for comparison with
  \<open>update\<close>: the check of the floor, the ceiling and every pipe's overlap, which may
  end the run; then, only in a run that goes on, the autopilot; then the scoring pass
  over all pipes.
\<close>

definition collision_and_bounds :: "flappy_game \<Rightarrow> flappy_game" where
  "collision_and_bounds g =
     (if bird_y (bird g) \<le> 0 then end_game (g\<lparr>bird := (bird g)\<lparr>bird_y := 0\<rparr>\<rparr>)
      else if top (bird g) \<ge> of_int WINDOW_HEIGHT
      then end_game (g\<lparr>bird := (bird g)\<lparr>bird_y := of_int WINDOW_HEIGHT - bird_height (bird g)\<rparr>\<rparr>)
      else if list_ex (\<lambda>p. collides_with p (bird_x (bird g)) (bird_y (bird g))
                              (bird_width (bird g)) (bird_height (bird g))) (pipes g)
      then end_game g
      else g)"

definition scoring_pass :: "flappy_game \<Rightarrow> flappy_game" where
  "scoring_pass g =
     g\<lparr>pipes := map (fst \<circ> score_one (bird_x (bird g))) (pipes g),
       score := score g + sum_list (map (snd \<circ> score_one (bird_x (bird g))) (pipes g))\<rparr>"

definition tick_spec_order :: "real \<Rightarrow> real \<Rightarrow> int \<Rightarrow> flappy_game \<Rightarrow> py_error + flappy_game" where
  "tick_spec_order dt now r g =
     (if \<not> running g \<or> game_over g then Inr g
      else
        let g1 = apply_difficulty g;
            g2 = g1\<lparr>bird := physics_step dt (bird g1)\<rparr>;
            g3 = g2\<lparr>pipes := advance_pipes (- current_pipe_speed g2 * dt) (pipes g2)\<rparr>
        in case spawn_phase dt r g3 of
             Inl e \<Rightarrow> Inl e
           | Inr g4 \<Rightarrow>
               (let g5 = collision_and_bounds g4
                in if game_over g5 then Inr g5
                   else case (if autoplay g5 then autoflap_logic now g5 else Inr g5) of
                          Inl e \<Rightarrow> Inl e
                        | Inr g6 \<Rightarrow> Inr (scoring_pass g6)))"

text \<open>
  A running game with the autopilot on, whose first pipe overlaps the bird after a tick
  of 0.5 s, and the state of that tick after the pipes have moved.
\<close>

definition overlap_game :: flappy_game where
  "overlap_game =
     init_game\<lparr>running := True, autoplay := True,
       bird := (bird init_game)\<lparr>bird_y := 320\<rparr>,
       pipes := [PipePair 200 270 300 48 600, PipePair 720 100 300 48 600]\<rparr>"

definition overlap_game_advanced :: flappy_game where
  "overlap_game_advanced =
     overlap_game\<lparr>bird := (bird overlap_game)\<lparr>bird_y := 200, velocity := - 240\<rparr>,
       pipes := [PipePair 160 270 300 48 600, PipePair 680 100 300 48 600],
       time_since_last_spawn := 1 / 2\<rparr>"

text \<open>A running game, without autopilot, whose bird reaches the floor in a tick of 1 s.\<close>

definition diving_game :: flappy_game where
  "diving_game =
     scenario_game\<lparr>autoplay := False, bird := (bird scenario_game)\<lparr>velocity := - 500\<rparr>\<rparr>"



section \<open>Properties\<close>

subsection \<open>Python primitives\<close>

lemma py_int_of_int: "py_int (of_int n) = n"
  by (simp add: py_int_def)

lemma py_int_numeral: "py_int (numeral n) = numeral n"
  by (simp add: py_int_def)

subsection \<open>Flap debounce\<close>

lemma game_flap_cases:
  "game_flap now g =
     (if now - last_flap_time g \<ge> MIN_FLAP_INTERVAL
      then g\<lparr>last_flap_time := now, bird := (bird g)\<lparr>velocity := FLAP_VELOCITY\<rparr>\<rparr>
      else g)"
  by (simp add: game_flap_def can_flap_now_def flap_def)

text \<open>
  Claim C4. The field \<open>last_flap_time\<close> holds the time of the last accepted flap. A
  flap request at time \<open>now\<close> less than \<open>MIN_FLAP_INTERVAL\<close> after it leaves the
  whole state as it is (so the velocity is unchanged and nothing is queued); a request
  at least \<open>MIN_FLAP_INTERVAL\<close> after it sets the velocity to \<open>FLAP_VELOCITY\<close>,
  whatever the velocity was, and records \<open>now\<close>. For two requests at \<open>t1\<close> and
  \<open>t2\<close>, the first accepted, with any state \<open>b\<close> of the bird between them: the
  second does nothing when \<open>t2 - t1 < MIN_FLAP_INTERVAL\<close> and sets the velocity to
  \<open>FLAP_VELOCITY\<close> otherwise.
\<close>

theorem flap_debounce:
  "(now - last_flap_time g < MIN_FLAP_INTERVAL \<longrightarrow> game_flap now g = g)
   \<and> (MIN_FLAP_INTERVAL \<le> now - last_flap_time g \<longrightarrow>
        game_flap now g = g\<lparr>last_flap_time := now, bird := (bird g)\<lparr>velocity := FLAP_VELOCITY\<rparr>\<rparr>
        \<and> velocity (bird (game_flap now g)) = FLAP_VELOCITY)
   \<and> (MIN_FLAP_INTERVAL \<le> t1 - last_flap_time g \<longrightarrow>
        (t2 - t1 < MIN_FLAP_INTERVAL \<longrightarrow>
           game_flap t2 ((game_flap t1 g)\<lparr>bird := b\<rparr>) = (game_flap t1 g)\<lparr>bird := b\<rparr>)
        \<and> (MIN_FLAP_INTERVAL \<le> t2 - t1 \<longrightarrow>
             velocity (bird (game_flap t2 ((game_flap t1 g)\<lparr>bird := b\<rparr>))) = FLAP_VELOCITY))"
  by (simp add: game_flap_cases)

theorem flap_debounce_witness:
  "game_flap (1 / 10) falling_game = falling_game
   \<and> velocity (bird falling_game) = - 500
   \<and> velocity (bird (game_flap 1 falling_game)) = FLAP_VELOCITY
   \<and> game_flap (11 / 10) ((game_flap 1 falling_game)\<lparr>bird := bird falling_game\<rparr>)
       = (game_flap 1 falling_game)\<lparr>bird := bird falling_game\<rparr>
   \<and> velocity (bird (game_flap 2 ((game_flap 1 falling_game)\<lparr>bird := bird falling_game\<rparr>)))
       = FLAP_VELOCITY"
proof -
  have l: "last_flap_time falling_game = 0" and v: "velocity (bird falling_game) = - 500"
    by (simp_all add: falling_game_def init_game_def)
  have early: "1 / 10 - last_flap_time falling_game < MIN_FLAP_INTERVAL"
    and late: "MIN_FLAP_INTERVAL \<le> 1 - last_flap_time falling_game"
    and close: "11 / 10 - (1::real) < MIN_FLAP_INTERVAL"
    and far: "MIN_FLAP_INTERVAL \<le> 2 - (1::real)"
    by (simp_all add: l MIN_FLAP_INTERVAL_def)
  have a: "game_flap (1 / 10) falling_game = falling_game"
    using flap_debounce [of "1 / 10" falling_game 1 2 "bird falling_game"] early by blast
  have b: "velocity (bird (game_flap 1 falling_game)) = FLAP_VELOCITY"
    using flap_debounce [of 1 falling_game 1 2 "bird falling_game"] late by blast
  have c: "game_flap (11 / 10) ((game_flap 1 falling_game)\<lparr>bird := bird falling_game\<rparr>)
       = (game_flap 1 falling_game)\<lparr>bird := bird falling_game\<rparr>"
    using flap_debounce [of 1 falling_game 1 "11 / 10" "bird falling_game"] late close by blast
  have d: "velocity (bird (game_flap 2 ((game_flap 1 falling_game)\<lparr>bird := bird falling_game\<rparr>)))
       = FLAP_VELOCITY"
    using flap_debounce [of 1 falling_game 1 2 "bird falling_game"] late far by blast
  show ?thesis
    using a b c d v by blast
qed

subsection \<open>Difficulty curve\<close>

lemma ramp_low:
  assumes "30 \<le> s" "s \<le> 80"
  shows "min 1 (max 0 (real_of_int s - 30) / 50) = (real_of_int s - 30) / 50"
  using assms by (simp add: min_def max_def)

lemma ramp_high:
  assumes "80 < s"
  shows "min 1 (max 0 (real_of_int s - 30) / 50) = 1"
  using assms by (simp add: min_def max_def)

lemma gap_low:
  assumes "30 \<le> s" "s \<le> 80"
  shows "max 60 (200 - 50 * ((real_of_int s - 30) / 50)) = real_of_int (230 - s)"
  using assms by (simp add: max_def field_simps)

lemma hard_gap_raw:
  assumes "30 \<le> s"
  shows "PIPE_GAP (difficulty_for s) = py_int (max 60 (200 - 50 * min 1 (max 0 (s - 30) / 50)))"
  using assms
  by (simp add: difficulty_for_def Let_def HARD_def RAMP_MAX_GAP_REDUCTION_def)

lemma hard_gap_int:
  assumes "30 \<le> s"
  shows "PIPE_GAP (difficulty_for (of_int s)) = (if s \<le> 80 then 230 - s else 150)"
proof (cases "s \<le> 80")
  case True
  have "max 60 (200 - 50 * min 1 (max 0 (real_of_int s - 30) / 50)) = real_of_int (230 - s)"
    using assms True by (simp only: ramp_low gap_low)
  then have "PIPE_GAP (difficulty_for (of_int s)) = py_int (real_of_int (230 - s))"
    using assms by (simp only: hard_gap_raw of_int_le_iff of_int_numeral)
  then show ?thesis using True by (simp only: py_int_of_int if_True)
next
  case False
  then have h: "80 < s" by simp
  have "PIPE_GAP (difficulty_for (of_int s)) = py_int (real_of_int 150)"
    using assms h
    by (simp add: difficulty_for_def Let_def HARD_def RAMP_MAX_GAP_REDUCTION_def ramp_high)
  then show ?thesis using h by (simp add: py_int_numeral)
qed

lemma hard_gap:
  assumes "30 \<le> s"
  shows "real_of_int (PIPE_GAP (difficulty_for (of_int s)))
         = max 60 (200 - 50 * min 1 (max 0 (real_of_int s - 30) / 50))"
proof (cases "s \<le> 80")
  case True
  then show ?thesis using assms
    by (simp only: hard_gap_int ramp_low gap_low if_True)
next
  case False
  then show ?thesis using assms by (simp add: hard_gap_int ramp_high)
qed

lemma hard_rest:
  assumes "30 \<le> s"
  shows "PIPE_SPEED (difficulty_for s) = 180 + 80 * min 1 (max 0 (s - 30) / 50)"
    and "PIPE_SPAWN_INTERVAL (difficulty_for s)
         = max (9 / 10) (2 - (8 / 10) * min 1 (max 0 (s - 30) / 50))"
    and "INITIAL_SPACING_MULT (difficulty_for s) = 105 / 100"
  using assms
  by (simp_all add: difficulty_for_def Let_def HARD_def RAMP_MAX_ADDITIONAL_SPEED_def)

lemma clamp_eq: "min 1 (max 0 (s - 30) / 50) = max 0 (min 1 ((s - 30) / 50))" for s :: real
  by (simp add: min_def max_def)

lemma speed_right_limit:
  "((\<lambda>s. PIPE_SPEED (difficulty_for s)) \<longlongrightarrow> 180) (at_right 30)"
proof -
  have ev: "\<forall>\<^sub>F s in at_right (30::real).
              PIPE_SPEED (difficulty_for s) = 180 + 80 * ((s - 30) / 50)"
  proof -
    have "\<forall>\<^sub>F s in at_right (30::real). s \<in> {30 <..< 80}"
      by (rule eventually_at_right_real) simp
    then show ?thesis
      by (rule eventually_mono) (simp add: hard_rest(1) min_def max_def)
  qed
  have "((\<lambda>s::real. 180 + 80 * ((s - 30) / 50)) \<longlongrightarrow> 180 + 80 * ((30 - 30) / 50)) (at_right 30)"
    by (intro tendsto_intros) simp_all
  then have "((\<lambda>s::real. 180 + 80 * ((s - 30) / 50)) \<longlongrightarrow> 180) (at_right 30)"
    by simp
  then show ?thesis
    using ev by (simp add: tendsto_cong)
qed

text \<open>
  Claim C5. \<open>_apply_difficulty\<close> stores in the four difficulty fields the value of
  \<open>difficulty_for\<close> at the score, and nothing else of the state enters. For an integer
  score \<open>s < 30\<close> the parameters are speed 80, gap 300, spawn interval 4.0, spacing
  multiplier 1.3. For \<open>s \<ge> 30\<close>, with \<open>ramp = clamp((s - 30) / 50, 0, 1)\<close>: speed
  \<open>180 + 80 * ramp\<close>, gap \<open>max(60, 200 - 50 * ramp)\<close> (an integer, so \<open>int\<close> changes
  nothing), spawn interval \<open>max(0.9, 2.0 - 0.8 * ramp)\<close>, spacing multiplier 1.05. The
  speed at score 30 is 180, and the speed tends to 180 as the score tends to 30 from
  above.
\<close>

theorem difficulty_curve:
  "current_pipe_speed (apply_difficulty g) = PIPE_SPEED (difficulty_for (of_int (score g)))
   \<and> current_pipe_gap (apply_difficulty g) = PIPE_GAP (difficulty_for (of_int (score g)))
   \<and> current_spawn_interval (apply_difficulty g)
       = PIPE_SPAWN_INTERVAL (difficulty_for (of_int (score g)))
   \<and> initial_spacing_mult (apply_difficulty g)
       = INITIAL_SPACING_MULT (difficulty_for (of_int (score g)))
   \<and> (s < 30 \<longrightarrow>
        difficulty_for (of_int s)
        = \<lparr>PIPE_SPEED = 80, PIPE_GAP = 300, PIPE_SPAWN_INTERVAL = 4,
           INITIAL_SPACING_MULT = 13 / 10\<rparr>)
   \<and> (30 \<le> s \<longrightarrow>
        (let ramp = max 0 (min 1 ((real_of_int s - 30) / 50))
         in PIPE_SPEED (difficulty_for (of_int s)) = 180 + 80 * ramp
            \<and> real_of_int (PIPE_GAP (difficulty_for (of_int s))) = max 60 (200 - 50 * ramp)
            \<and> PIPE_SPAWN_INTERVAL (difficulty_for (of_int s)) = max (9 / 10) (2 - (8 / 10) * ramp)
            \<and> INITIAL_SPACING_MULT (difficulty_for (of_int s)) = 105 / 100))
   \<and> PIPE_SPEED (difficulty_for 30) = 180
   \<and> ((\<lambda>s. PIPE_SPEED (difficulty_for s)) \<longlongrightarrow> 180) (at_right 30)"
proof -
  have store:
    "current_pipe_speed (apply_difficulty g) = PIPE_SPEED (difficulty_for (of_int (score g)))"
    "current_pipe_gap (apply_difficulty g) = PIPE_GAP (difficulty_for (of_int (score g)))"
    "current_spawn_interval (apply_difficulty g)
       = PIPE_SPAWN_INTERVAL (difficulty_for (of_int (score g)))"
    "initial_spacing_mult (apply_difficulty g)
       = INITIAL_SPACING_MULT (difficulty_for (of_int (score g)))"
    by (simp_all add: apply_difficulty_def Let_def)
  have easy: "s < 30 \<longrightarrow>
        difficulty_for (of_int s)
        = \<lparr>PIPE_SPEED = 80, PIPE_GAP = 300, PIPE_SPAWN_INTERVAL = 4,
           INITIAL_SPACING_MULT = 13 / 10\<rparr>"
    by (simp add: difficulty_for_def EASY_def)
  have hard: "30 \<le> s \<longrightarrow>
        (let ramp = max 0 (min 1 ((real_of_int s - 30) / 50))
         in PIPE_SPEED (difficulty_for (of_int s)) = 180 + 80 * ramp
            \<and> real_of_int (PIPE_GAP (difficulty_for (of_int s))) = max 60 (200 - 50 * ramp)
            \<and> PIPE_SPAWN_INTERVAL (difficulty_for (of_int s)) = max (9 / 10) (2 - (8 / 10) * ramp)
            \<and> INITIAL_SPACING_MULT (difficulty_for (of_int s)) = 105 / 100)"
  proof
    assume h: "30 \<le> s"
    then have hr: "(30::real) \<le> of_int s" by simp
    show "let ramp = max 0 (min 1 ((real_of_int s - 30) / 50))
         in PIPE_SPEED (difficulty_for (of_int s)) = 180 + 80 * ramp
            \<and> real_of_int (PIPE_GAP (difficulty_for (of_int s))) = max 60 (200 - 50 * ramp)
            \<and> PIPE_SPAWN_INTERVAL (difficulty_for (of_int s)) = max (9 / 10) (2 - (8 / 10) * ramp)
            \<and> INITIAL_SPACING_MULT (difficulty_for (of_int s)) = 105 / 100"
      unfolding Let_def clamp_eq [symmetric]
      using hard_gap [OF h] hard_rest [OF hr] by simp
  qed
  have at30: "PIPE_SPEED (difficulty_for 30) = 180"
    by (simp add: hard_rest(1))
  show ?thesis
    using store easy hard at30 speed_right_limit by blast
qed

theorem difficulty_curve_witness:
  "difficulty_for 10
   = \<lparr>PIPE_SPEED = 80, PIPE_GAP = 300, PIPE_SPAWN_INTERVAL = 4, INITIAL_SPACING_MULT = 13 / 10\<rparr>
   \<and> PIPE_SPEED (difficulty_for 55) = 220
   \<and> PIPE_GAP (difficulty_for 55) = 175
   \<and> PIPE_SPAWN_INTERVAL (difficulty_for 55) = 16 / 10
   \<and> INITIAL_SPACING_MULT (difficulty_for 55) = 105 / 100
   \<and> current_pipe_speed (apply_difficulty init_game) = 80"
proof -
  have sc: "score init_game = 0"
    by (simp add: init_game_def)
  have e: "PIPE_SPEED (difficulty_for 0) = 80"
    using difficulty_curve [of init_game 0] by simp
  show ?thesis
    using difficulty_curve [of init_game 10] difficulty_curve [of init_game 55]
    by (simp add: sc e Let_def)
qed

subsection \<open>Overlap test\<close>

lemma aabb_area:
  assumes "0 < w1" "0 < h1" "0 < w2" "0 < h2"
  shows "aabb x1 y1 w1 h1 x2 y2 w2 h2 \<longleftrightarrow> 0 < overlap_area x1 y1 w1 h1 x2 y2 w2 h2"
proof -
  have nn: "0 \<le> max 0 (min (x1 + w1) (x2 + w2) - max x1 x2)"
           "0 \<le> max 0 (min (y1 + h1) (y2 + h2) - max y1 y2)"
    by simp_all
  have "0 < overlap_area x1 y1 w1 h1 x2 y2 w2 h2 \<longleftrightarrow>
          0 < max 0 (min (x1 + w1) (x2 + w2) - max x1 x2)
          \<and> 0 < max 0 (min (y1 + h1) (y2 + h2) - max y1 y2)"
    unfolding overlap_area_def using nn by (auto simp: zero_less_mult_iff)
  also have "\<dots> \<longleftrightarrow> aabb x1 y1 w1 h1 x2 y2 w2 h2"
    using assms by (auto simp: aabb_def min_def max_def)
  finally show ?thesis by simp
qed

text \<open>
  Claim C6. The overlap test is the strict-inequality box intersection
  (\<open>a.left < b.right\<close>, \<open>a.right > b.left\<close>, \<open>a.bottom < b.top\<close>, \<open>a.top > b.bottom\<close>)
  of the agent's box against the lower segment and against the upper segment. A box
  whose side lies on the pipe's left or right side does not collide, and a box whose
  side lies on a segment's horizontal edge does not intersect that segment. For boxes
  and segments of positive width and height the test is true exactly when the
  intersection with the lower or with the upper segment has positive area: false at
  area zero, true at every positive penetration.
\<close>

theorem overlap_boundary:
  "(collides_with p ax ay aw ah \<longleftrightarrow>
      (ax < pipe_x p + width_pipe p \<and> ax + aw > pipe_x p
       \<and> ay < 0 + bottom_height p \<and> ay + ah > 0)
      \<or> (ax < pipe_x p + width_pipe p \<and> ax + aw > pipe_x p
         \<and> ay < top_pos p + top_height p \<and> ay + ah > top_pos p))
   \<and> (ax + aw = pipe_x p \<or> ax = pipe_x p + width_pipe p \<longrightarrow> \<not> collides_with p ax ay aw ah)
   \<and> (ay = bottom_height p \<longrightarrow>
        \<not> aabb ax ay aw ah (pipe_x p) 0 (width_pipe p) (bottom_height p))
   \<and> (ay + ah = top_pos p \<longrightarrow>
        \<not> aabb ax ay aw ah (pipe_x p) (top_pos p) (width_pipe p) (top_height p))
   \<and> (0 < aw \<and> 0 < ah \<and> 0 < width_pipe p \<and> 0 < bottom_height p \<and> 0 < top_height p \<longrightarrow>
        (collides_with p ax ay aw ah \<longleftrightarrow>
           0 < overlap_area ax ay aw ah (pipe_x p) 0 (width_pipe p) (bottom_height p)
           \<or> 0 < overlap_area ax ay aw ah (pipe_x p) (top_pos p) (width_pipe p) (top_height p)))"
proof -
  have strict: "collides_with p ax ay aw ah \<longleftrightarrow>
      (ax < pipe_x p + width_pipe p \<and> ax + aw > pipe_x p
       \<and> ay < 0 + bottom_height p \<and> ay + ah > 0)
      \<or> (ax < pipe_x p + width_pipe p \<and> ax + aw > pipe_x p
         \<and> ay < top_pos p + top_height p \<and> ay + ah > top_pos p)"
    by (simp add: collides_with_def aabb_def)
  have sides: "ax + aw = pipe_x p \<or> ax = pipe_x p + width_pipe p
                 \<longrightarrow> \<not> collides_with p ax ay aw ah"
    by (auto simp: collides_with_def aabb_def)
  have lower: "ay = bottom_height p \<longrightarrow>
        \<not> aabb ax ay aw ah (pipe_x p) 0 (width_pipe p) (bottom_height p)"
    by (simp add: aabb_def)
  have upper: "ay + ah = top_pos p \<longrightarrow>
        \<not> aabb ax ay aw ah (pipe_x p) (top_pos p) (width_pipe p) (top_height p)"
    by (simp add: aabb_def)
  have area: "0 < aw \<and> 0 < ah \<and> 0 < width_pipe p \<and> 0 < bottom_height p \<and> 0 < top_height p \<longrightarrow>
        (collides_with p ax ay aw ah \<longleftrightarrow>
           0 < overlap_area ax ay aw ah (pipe_x p) 0 (width_pipe p) (bottom_height p)
           \<or> 0 < overlap_area ax ay aw ah (pipe_x p) (top_pos p) (width_pipe p) (top_height p))"
    by (simp add: collides_with_def aabb_area)
  show ?thesis
    using strict sides lower upper area by blast
qed

theorem overlap_boundary_witness:
  "\<not> collides_with (PipePair 164 200 300 48 600) 100 100 64 64
   \<and> collides_with (PipePair 163 200 300 48 600) 100 100 64 64
   \<and> \<not> collides_with (PipePair 120 200 300 48 600) 100 200 64 64
   \<and> collides_with (PipePair 120 200 300 48 600) 100 199 64 64
   \<and> \<not> collides_with (PipePair 120 200 300 48 600) 100 436 64 64
   \<and> collides_with (PipePair 120 200 300 48 600) 100 437 64 64
   \<and> overlap_area 100 199 64 64 120 0 48 200 = 44"
  using overlap_boundary [of "PipePair 164 200 300 48 600" 100 100 64 64]
        overlap_boundary [of "PipePair 163 200 300 48 600" 100 100 64 64]
        overlap_boundary [of "PipePair 120 200 300 48 600" 100 200 64 64]
        overlap_boundary [of "PipePair 120 200 300 48 600" 100 199 64 64]
        overlap_boundary [of "PipePair 120 200 300 48 600" 100 436 64 64]
        overlap_boundary [of "PipePair 120 200 300 48 600" 100 437 64 64]
  by (simp add: PipePair_def overlap_area_def)

subsection \<open>Prediction\<close>

lemma flap_times_sorted:
  "sorted (filter (\<lambda>t. t < T) (map (\<lambda>i. real i * MIN_FLAP_INTERVAL) [0..<n]))"
proof -
  have "sorted (map (\<lambda>i. real i * MIN_FLAP_INTERVAL) [0..<n])"
    by (simp add: sorted_map MIN_FLAP_INTERVAL_def sorted_wrt_iff_nth_less)
  then show ?thesis by (rule sorted_wrt_filter)
qed

lemma flap_events_sorted: "sorted (map snd (flap_events T n))"
proof -
  have "map snd (flap_events T n) =
          (if n \<ge> 1 then filter (\<lambda>t. t < T) (map (\<lambda>i. real i * MIN_FLAP_INTERVAL) [0..<n])
           else []) @ [T]"
    by (simp add: flap_events_def comp_def)
  moreover have "sorted (\<dots>)"
    using flap_times_sorted [of T n] by (auto simp: sorted_append)
  ultimately show ?thesis by simp
qed

text \<open>The events are built in the order of their times, so sorting changes nothing.\<close>

lemma sort_flap_events: "sort_key snd (flap_events T n) = flap_events T n"
  by (rule sort_key_id_if_sorted [OF flap_events_sorted])

lemma predict_unsorted:
  "predict_center_with_flaps g T n =
     integrate_events (flap_events T n) (bird_y (bird g)) (velocity (bird g)) 0
     + bird_height (bird g) / 2"
  by (simp add: predict_center_with_flaps_def sort_flap_events)


lemma flap_events_first:
  assumes "1 \<le> n" "0 < T"
  shows "\<exists>es. flap_events T n = (Flap, 0) # es"
proof -
  from assms(1) have "[0..<n] = 0 # [1..<n]" by (simp add: upt_conv_Cons)
  with assms show ?thesis by (simp add: flap_events_def)
qed

lemma integrate_first_flap:
  "integrate_events ((Flap, 0) # es) y v 0 = integrate_events es y FLAP_VELOCITY 0"
  by simp




lemma upt4: "[0..<max_flaps + 1] = [0, 1, 2, 3]"
  unfolding max_flaps_def by code_simp





lemma scenario_fields:
  "bird_y (bird scenario_game) = 268" "bird_height (bird scenario_game) = 64"
  "velocity (bird scenario_game) = 0" "bird_x (bird scenario_game) = 100"
  "pipes scenario_game = [scenario_pipe]" "running scenario_game" "\<not> game_over scenario_game"
  "current_pipe_speed scenario_game = 80" "score scenario_game = 0"
  "time_since_last_spawn scenario_game = 0" "last_flap_time scenario_game = 0"
  "gap_y scenario_pipe = 200" "gap_size scenario_pipe = 200" "pipe_x scenario_pipe = 180"
  "width_pipe scenario_pipe = 48"
  by (simp_all add: scenario_game_def scenario_pipe_def init_game_def PipePair_def
        WINDOW_HEIGHT_def BIRD_SIZE_def EASY_def)





text \<open>
  Claim C10. For every flap count \<open>k \<ge> 1\<close> and every time to the pipe \<open>T > 0\<close>, two
  states whose birds have the same position and height, whatever their velocities,
  give the same predicted centre: the first flap event is at time 0 and overwrites the
  velocity before any time is integrated.
\<close>

theorem prediction_velocity_independent:
  assumes "1 \<le> k" and "0 < T"
    and "bird_y (bird g) = bird_y (bird g')"
    and "bird_height (bird g) = bird_height (bird g')"
  shows "predict_center_with_flaps g T k = predict_center_with_flaps g' T k"
proof -
  obtain es where "flap_events T k = (Flap, 0) # es"
    using flap_events_first [OF assms(1,2)] by blast
  then show ?thesis
    using assms(3,4) by (simp only: predict_unsorted integrate_first_flap)
qed

theorem prediction_velocity_independent_witness:
  "velocity (bird falling_game) = - 500 \<and> velocity (bird scenario_game) = 0
   \<and> predict_center_with_flaps falling_game 1 2 = predict_center_with_flaps scenario_game 1 2"
proof -
  have f: "bird_y (bird falling_game) = 268" "bird_height (bird falling_game) = 64"
          "velocity (bird falling_game) = - 500"
    by (simp_all add: falling_game_def init_game_def WINDOW_HEIGHT_def BIRD_SIZE_def)
  have "predict_center_with_flaps falling_game 1 2 = predict_center_with_flaps scenario_game 1 2"
    by (rule prediction_velocity_independent) (simp_all add: f scenario_fields)
  then show ?thesis
    by (simp add: f scenario_fields)
qed

subsection \<open>Autopilot decision\<close>


lemma autoflap_result:
  "autoflap_logic now g = Inr g \<or> autoflap_logic now g = Inr (game_flap now g)"
  by (auto simp: autoflap_logic_def py_div_def Let_def split: option.splits)




subsection \<open>The tick\<close>

lemma difficulty_gap_bounds:
  "150 \<le> PIPE_GAP (difficulty_for (of_int s)) \<and> PIPE_GAP (difficulty_for (of_int s)) \<le> 300"
proof (cases "s < 30")
  case True
  then show ?thesis by (simp add: difficulty_for_def EASY_def)
next
  case False
  then have "30 \<le> s" by simp
  then show ?thesis by (simp add: hard_gap_int)
qed

lemma difficulty_speed_bounds:
  "80 \<le> PIPE_SPEED (difficulty_for s) \<and> PIPE_SPEED (difficulty_for s) \<le> 260"
  by (simp add: difficulty_for_def EASY_def HARD_def Let_def RAMP_MAX_ADDITIONAL_SPEED_def min_def max_def)

lemma difficulty_spacing:
  "INITIAL_SPACING_MULT (difficulty_for s) = 13 / 10 \<or> INITIAL_SPACING_MULT (difficulty_for s) = 105 / 100"
  by (simp add: difficulty_for_def EASY_def HARD_def Let_def)

lemma apply_difficulty_fields:
  "score (apply_difficulty g) = score g" "game_over (apply_difficulty g) = game_over g"
  "running (apply_difficulty g) = running g" "bird (apply_difficulty g) = bird g"
  "pipes (apply_difficulty g) = pipes g"
  "time_since_last_spawn (apply_difficulty g) = time_since_last_spawn g"
  "last_flap_time (apply_difficulty g) = last_flap_time g"
  "autoplay (apply_difficulty g) = autoplay g"
  "current_pipe_speed (apply_difficulty g) = PIPE_SPEED (difficulty_for (of_int (score g)))"
  "current_pipe_gap (apply_difficulty g) = PIPE_GAP (difficulty_for (of_int (score g)))"
  "current_spawn_interval (apply_difficulty g) = PIPE_SPAWN_INTERVAL (difficulty_for (of_int (score g)))"
  "initial_spacing_mult (apply_difficulty g) = INITIAL_SPACING_MULT (difficulty_for (of_int (score g)))"
  by (simp_all add: apply_difficulty_def Let_def)

lemma randint_range:
  assumes "lo \<le> hi"
  shows "\<exists>v. randint lo hi r = Inr v \<and> lo \<le> v \<and> v \<le> hi"
proof -
  have "0 < hi - lo + 1"
    using assms by simp
  then have "0 \<le> r mod (hi - lo + 1)" "r mod (hi - lo + 1) < hi - lo + 1"
    by (rule pos_mod_sign, rule pos_mod_bound)
  then have "lo \<le> lo + r mod (hi - lo + 1)" "lo + r mod (hi - lo + 1) \<le> hi"
    by linarith+
  then show ?thesis using assms by (simp add: randint_def)
qed

lemma randint_onto:
  assumes "lo \<le> v" "v \<le> hi"
  shows "randint lo hi (v - lo) = Inr v"
  using assms by (simp add: randint_def)

lemma spawn_consts:
  "py_int (of_int WINDOW_WIDTH * (7 / 10)) = 280"
  "py_int (of_int WINDOW_WIDTH * (12 / 100)) = 48"
  by (simp_all add: WINDOW_WIDTH_def py_int_def)

lemma spawn_pipe_ok:
  assumes "current_pipe_gap g \<le> 500"
  shows "\<exists>gy. 70 \<le> gy \<and> gy + current_pipe_gap g \<le> 570
            \<and> spawn_pipe r g =
               Inr (g\<lparr>pipes := pipes g @
                    [PipePair (max 420 ((if pipes g \<noteq> [] then Max (set (map pipe_x (pipes g))) else 0) + 280))
                       (of_int gy) (of_int (current_pipe_gap g)) 48 600],
                  time_since_last_spawn := 0\<rparr>)"
proof -
  have "PIPE_MIN_GAP_Y + 10 \<le> WINDOW_HEIGHT - current_pipe_gap g - 30"
    using assms by (simp add: PIPE_MIN_GAP_Y_def WINDOW_HEIGHT_def)
  from randint_range [OF this, of r] obtain gy where
    gy: "randint (PIPE_MIN_GAP_Y + 10) (WINDOW_HEIGHT - current_pipe_gap g - 30) r = Inr gy"
      "PIPE_MIN_GAP_Y + 10 \<le> gy" "gy \<le> WINDOW_HEIGHT - current_pipe_gap g - 30"
    by blast
  have "spawn_pipe r g =
               Inr (g\<lparr>pipes := pipes g @
                    [PipePair (max 420 ((if pipes g \<noteq> [] then Max (set (map pipe_x (pipes g))) else 0) + 280))
                       (of_int gy) (of_int (current_pipe_gap g)) 48 600],
                  time_since_last_spawn := 0\<rparr>)"
    unfolding spawn_pipe_def Let_def gy(1) spawn_consts
    by (simp add: WINDOW_WIDTH_def WINDOW_HEIGHT_def)
  then show ?thesis
    using gy(2,3) by (auto simp: PIPE_MIN_GAP_Y_def WINDOW_HEIGHT_def)
qed

lemma check_pipes_geometry:
  "check_pipes ax ay aw ah ps sc = (ps', sc', hit) \<Longrightarrow> map geometry ps' = map geometry ps"
proof (induction ps arbitrary: sc ps' sc' hit)
  case Nil
  then show ?case by simp
next
  case (Cons p ps)
  show ?case
  proof (cases "collides_with p ax ay aw ah")
    case True
    with Cons.prems show ?thesis by simp
  next
    case False
    obtain p1 inc where so: "score_one ax p = (p1, inc)" by (cases "score_one ax p")
    obtain qs s2 h2 where rec: "check_pipes ax ay aw ah ps (sc + inc) = (qs, s2, h2)"
      by (cases "check_pipes ax ay aw ah ps (sc + inc)")
    from Cons.prems False so rec have "ps' = p1 # qs" by simp
    moreover have "geometry p1 = geometry p"
      using so by (auto simp: score_one_def geometry_def split: if_splits)
    moreover have "map geometry qs = map geometry ps"
      using Cons.IH [OF rec] .
    ultimately show ?thesis by simp
  qed
qed

lemma collision_scoring_fields:
  "map geometry (pipes (collision_scoring g)) = map geometry (pipes g)"
  "time_since_last_spawn (collision_scoring g) = time_since_last_spawn g"
  "bird (collision_scoring g) = bird g"
  "last_flap_time (collision_scoring g) = last_flap_time g"
proof -
  obtain ps sc hit where c: "check_pipes (bird_x (bird g)) (bird_y (bird g))
             (bird_width (bird g)) (bird_height (bird g)) (pipes g) (score g) = (ps, sc, hit)"
    by (metis prod_cases3)
  show "map geometry (pipes (collision_scoring g)) = map geometry (pipes g)"
    using check_pipes_geometry [OF c] by (simp add: collision_scoring_def c end_game_def)
  show "time_since_last_spawn (collision_scoring g) = time_since_last_spawn g"
     "bird (collision_scoring g) = bird g"
  "last_flap_time (collision_scoring g) = last_flap_time g"
    by (simp_all add: collision_scoring_def c end_game_def)
qed

lemma game_flap_fields:
  "pipes (game_flap now g) = pipes g" "score (game_flap now g) = score g"
  "time_since_last_spawn (game_flap now g) = time_since_last_spawn g"
  "running (game_flap now g) = running g" "game_over (game_flap now g) = game_over g"
  "bird_x (bird (game_flap now g)) = bird_x (bird g)"
  "bird_y (bird (game_flap now g)) = bird_y (bird g)"
  "bird_width (bird (game_flap now g)) = bird_width (bird g)"
  "bird_height (bird (game_flap now g)) = bird_height (bird g)"
  "current_pipe_speed (game_flap now g) = current_pipe_speed g"
  "current_pipe_gap (game_flap now g) = current_pipe_gap g"
  "current_spawn_interval (game_flap now g) = current_spawn_interval g"
  "initial_spacing_mult (game_flap now g) = initial_spacing_mult g"
  "autoplay (game_flap now g) = autoplay g"
  by (simp_all add: game_flap_cases)

lemma update_bounds:
  assumes "running g" "\<not> game_over g"
  shows "bird_y (bird (after_physics dt g)) \<le> 0 \<Longrightarrow>
           update dt now r g =
             Inr (end_game ((after_physics dt g)\<lparr>bird := (bird (after_physics dt g))\<lparr>bird_y := 0\<rparr>\<rparr>))"
    and "0 < bird_y (bird (after_physics dt g)) \<Longrightarrow> 600 \<le> top (bird (after_physics dt g)) \<Longrightarrow>
           update dt now r g =
             Inr (end_game ((after_physics dt g)\<lparr>bird := (bird (after_physics dt g))\<lparr>bird_y :=
                    600 - bird_height (bird (after_physics dt g))\<rparr>\<rparr>))"
  using assms
  by (simp_all add: update_def Let_def after_physics_def apply_difficulty_fields WINDOW_HEIGHT_def)

lemma spawn_phase_ok:
  assumes "current_pipe_gap g \<le> 500"
  shows "\<exists>g'. spawn_phase dt r g = Inr g'"
  using spawn_pipe_ok [of "g\<lparr>time_since_last_spawn := time_since_last_spawn g + dt\<rparr>" r] assms
  by (auto simp: spawn_phase_def Let_def)

lemma update_inside:
  assumes "running g" "\<not> game_over g"
    and "0 < bird_y (bird (after_physics dt g))" "top (bird (after_physics dt g)) < 600"
  shows "\<exists>g4 g5. spawn_phase dt r (after_advance dt g) = Inr g4
           \<and> (if autoplay g then autoflap_logic now g4 = Inr g5 else g5 = g4)
           \<and> (g5 = g4 \<or> g5 = game_flap now g4)
           \<and> update dt now r g = Inr (collision_scoring g5)"
proof -
  have "current_pipe_gap (after_advance dt g) \<le> 500"
    using difficulty_gap_bounds [of "score g"]
    by (simp add: after_advance_def after_physics_def apply_difficulty_fields)
  then obtain g4 where g4: "spawn_phase dt r (after_advance dt g) = Inr g4"
    using spawn_phase_ok by blast
  have ap: "autoplay g4 = autoplay g"
    using g4 by (auto simp: spawn_phase_def spawn_pipe_def Let_def after_advance_def after_physics_def
       apply_difficulty_fields split: if_splits sum.splits)
  obtain g5 where g5: "(if autoplay g then autoflap_logic now g4 = Inr g5 else g5 = g4)"
        "g5 = g4 \<or> g5 = game_flap now g4"
    using autoflap_result [of now g4] by (cases "autoplay g") auto
  have "update dt now r g = Inr (collision_scoring g5)"
    using assms g4 g5 ap
    by (auto simp: update_def Let_def after_advance_def after_physics_def apply_difficulty_fields WINDOW_HEIGHT_def)
  then show ?thesis using g4 g5 by blast
qed

lemma after_advance_fields:
  "pipes (after_advance dt g)
     = advance_pipes (- PIPE_SPEED (difficulty_for (of_int (score g))) * dt) (pipes g)"
  "current_pipe_gap (after_advance dt g) = PIPE_GAP (difficulty_for (of_int (score g)))"
  "current_spawn_interval (after_advance dt g)
     = PIPE_SPAWN_INTERVAL (difficulty_for (of_int (score g)))"
  "current_pipe_speed (after_advance dt g) = PIPE_SPEED (difficulty_for (of_int (score g)))"
  "initial_spacing_mult (after_advance dt g) = INITIAL_SPACING_MULT (difficulty_for (of_int (score g)))"
  "time_since_last_spawn (after_advance dt g) = time_since_last_spawn g"
  "bird (after_advance dt g) = physics_step dt (bird g)"
  "score (after_advance dt g) = score g"
  "running (after_advance dt g) = running g"
  "game_over (after_advance dt g) = game_over g"
  "autoplay (after_advance dt g) = autoplay g"
  "last_flap_time (after_advance dt g) = last_flap_time g"
  "bird (after_physics dt g) = physics_step dt (bird g)"
  by (simp_all add: after_advance_def after_physics_def apply_difficulty_fields)

lemma spawn_phase_cases:
  assumes "current_pipe_gap g \<le> 500"
  shows "\<exists>g'. spawn_phase dt r g = Inr g' \<and>
     (if time_since_last_spawn g + dt \<ge> current_spawn_interval g
      then (\<exists>gy. 70 \<le> gy \<and> gy + current_pipe_gap g \<le> 570
             \<and> pipes g' = pipes g @
                    [PipePair (max 420 ((if pipes g \<noteq> [] then Max (set (map pipe_x (pipes g))) else 0) + 280))
                       (of_int gy) (of_int (current_pipe_gap g)) 48 600])
           \<and> time_since_last_spawn g' = 0
      else pipes g' = pipes g \<and> time_since_last_spawn g' = time_since_last_spawn g + dt)"
proof (cases "time_since_last_spawn g + dt \<ge> current_spawn_interval g")
  case True
  from spawn_pipe_ok [of "g\<lparr>time_since_last_spawn := time_since_last_spawn g + dt\<rparr>" r] assms
  show ?thesis using True by (auto simp: spawn_phase_def Let_def)
next
  case False
  then show ?thesis by (auto simp: spawn_phase_def Let_def)
qed


lemma spawn_phase_fields:
  assumes "spawn_phase dt r g = Inr g'"
  shows "bird g' = bird g" "score g' = score g" "running g' = running g"
    "game_over g' = game_over g" "autoplay g' = autoplay g"
    "last_flap_time g' = last_flap_time g"
    "current_pipe_speed g' = current_pipe_speed g" "current_pipe_gap g' = current_pipe_gap g"
    "current_spawn_interval g' = current_spawn_interval g"
    "initial_spacing_mult g' = initial_spacing_mult g"
  using assms
  by (auto simp: spawn_phase_def spawn_pipe_def Let_def split: if_splits sum.splits)

lemma collision_scoring_difficulty:
  "current_pipe_speed (collision_scoring g) = current_pipe_speed g"
  "current_pipe_gap (collision_scoring g) = current_pipe_gap g"
  "current_spawn_interval (collision_scoring g) = current_spawn_interval g"
  "initial_spacing_mult (collision_scoring g) = initial_spacing_mult g"
  "autoplay (collision_scoring g) = autoplay g"
  by (simp_all add: collision_scoring_def end_game_def split: prod.splits)

lemma physics_step_fields:
  "bird_x (physics_step dt b) = bird_x b" "bird_width (physics_step dt b) = bird_width b"
  "bird_height (physics_step dt b) = bird_height b"
  "velocity (physics_step dt b) = velocity b + GRAVITY * dt"
  "bird_y (physics_step dt b) = bird_y b + (velocity b + GRAVITY * dt) * dt"
  by (simp_all add: physics_step_def Let_def)

lemma collision_scoring_result:
  assumes "check_pipes (bird_x (bird g)) (bird_y (bird g)) (bird_width (bird g))
             (bird_height (bird g)) (pipes g) (score g) = (ps, sc, hit)"
  shows "pipes (collision_scoring g) = ps" "score (collision_scoring g) = sc"
    "game_over (collision_scoring g) = (hit \<or> game_over g)"
  by (simp_all add: collision_scoring_def assms end_game_def)


lemma check_pipes_prefix:
  "\<exists>k \<le> length ps.
      check_pipes ax ay aw ah ps sc =
        (map (fst \<circ> score_one ax) (take k ps) @ drop k ps,
         sc + sum_list (map (snd \<circ> score_one ax) (take k ps)),
         k < length ps)
      \<and> (\<forall>i < k. \<not> collides_with (ps ! i) ax ay aw ah)
      \<and> (k < length ps \<longrightarrow> collides_with (ps ! k) ax ay aw ah)"
proof (induction ps arbitrary: sc)
  case Nil
  show ?case by simp
next
  case (Cons p ps)
  show ?case
  proof (cases "collides_with p ax ay aw ah")
    case True
    then have "check_pipes ax ay aw ah (p # ps) sc =
        (map (fst \<circ> score_one ax) (take 0 (p # ps)) @ drop 0 (p # ps),
         sc + sum_list (map (snd \<circ> score_one ax) (take 0 (p # ps))),
         0 < length (p # ps))
      \<and> (\<forall>i < 0. \<not> collides_with ((p # ps) ! i) ax ay aw ah)
      \<and> (0 < length (p # ps) \<longrightarrow> collides_with ((p # ps) ! 0) ax ay aw ah)"
      by simp
    then show ?thesis by blast
  next
    case False
    from Cons.IH [of "sc + snd (score_one ax p)"] obtain k where k: "k \<le> length ps"
      "check_pipes ax ay aw ah ps (sc + snd (score_one ax p)) =
        (map (fst \<circ> score_one ax) (take k ps) @ drop k ps,
         sc + snd (score_one ax p) + sum_list (map (snd \<circ> score_one ax) (take k ps)),
         k < length ps)"
      "\<forall>i < k. \<not> collides_with (ps ! i) ax ay aw ah"
      "k < length ps \<longrightarrow> collides_with (ps ! k) ax ay aw ah"
      by blast
    have "check_pipes ax ay aw ah (p # ps) sc =
        (map (fst \<circ> score_one ax) (take (Suc k) (p # ps)) @ drop (Suc k) (p # ps),
         sc + sum_list (map (snd \<circ> score_one ax) (take (Suc k) (p # ps))),
         Suc k < length (p # ps))"
      using False k(2) by (simp add: case_prod_beta)
    moreover have "\<forall>i < Suc k. \<not> collides_with ((p # ps) ! i) ax ay aw ah"
      using False k(3) by (auto simp: less_Suc_eq_0_disj)
    moreover have "Suc k < length (p # ps) \<longrightarrow> collides_with ((p # ps) ! Suc k) ax ay aw ah"
      using k(4) by simp
    moreover have "Suc k \<le> length (p # ps)" using k(1) by simp
    ultimately show ?thesis by blast
  qed
qed




subsection \<open>Start and restart\<close>

lemma start_consts:
  "WINDOW_WIDTH + 0 * n = 400"
  "py_int (of_int WINDOW_WIDTH * (12 / 100)) = 48"
  "py_int (of_int WINDOW_WIDTH * (13 / 10)) = 520"
  "py_int (of_int WINDOW_WIDTH * (105 / 100)) = 420"
  by (simp_all add: WINDOW_WIDTH_def py_int_def)

lemma start_game_result:
  assumes "current_pipe_gap g \<le> 480"
  shows "\<exists>gy0 gy1. 80 \<le> gy0 \<and> gy0 + current_pipe_gap g \<le> 560
           \<and> 80 \<le> gy1 \<and> gy1 + current_pipe_gap g \<le> 560
           \<and> start_game r0 r1 g =
               Inr (g\<lparr>pipes :=
                       [PipePair 400 (of_int gy0) (of_int (current_pipe_gap g)) 48 600,
                        PipePair (400 + of_int (py_int (400 * initial_spacing_mult g)))
                          (of_int gy1) (of_int (current_pipe_gap g)) 48 600],
                     score := 0, game_over := False, running := True,
                     time_since_last_spawn := 0,
                     bird := (bird g)\<lparr>bird_x := 100, bird_y := launch_y (bird g), velocity := 0\<rparr>\<rparr>)"
proof -
  have le: "PIPE_MIN_GAP_Y + 20 \<le> WINDOW_HEIGHT - current_pipe_gap g - 40"
    using assms by (simp add: PIPE_MIN_GAP_Y_def WINDOW_HEIGHT_def)
  from randint_range [OF le, of r0] obtain gy0 where
    g0: "randint (PIPE_MIN_GAP_Y + 20) (WINDOW_HEIGHT - current_pipe_gap g - 40) r0 = Inr gy0"
        "PIPE_MIN_GAP_Y + 20 \<le> gy0" "gy0 \<le> WINDOW_HEIGHT - current_pipe_gap g - 40"
    by blast
  from randint_range [OF le, of r1] obtain gy1 where
    g1: "randint (PIPE_MIN_GAP_Y + 20) (WINDOW_HEIGHT - current_pipe_gap g - 40) r1 = Inr gy1"
        "PIPE_MIN_GAP_Y + 20 \<le> gy1" "gy1 \<le> WINDOW_HEIGHT - current_pipe_gap g - 40"
    by blast
  have "start_game r0 r1 g =
               Inr (g\<lparr>pipes :=
                       [PipePair 400 (of_int gy0) (of_int (current_pipe_gap g)) 48 600,
                        PipePair (400 + of_int (py_int (400 * initial_spacing_mult g)))
                          (of_int gy1) (of_int (current_pipe_gap g)) 48 600],
                     score := 0, game_over := False, running := True,
                     time_since_last_spawn := 0,
                     bird := (bird g)\<lparr>bird_x := 100, bird_y := launch_y (bird g), velocity := 0\<rparr>\<rparr>)"
    by (simp add: start_game_def Let_def g0(1) g1(1) start_consts(1,2))
       (simp add: WINDOW_WIDTH_def WINDOW_HEIGHT_def py_int_numeral)
  moreover have "80 \<le> gy0" "gy0 + current_pipe_gap g \<le> 560"
      "80 \<le> gy1" "gy1 + current_pipe_gap g \<le> 560"
    using g0(2,3) g1(2,3) by (simp_all add: PIPE_MIN_GAP_Y_def WINDOW_HEIGHT_def)
  ultimately show ?thesis by blast
qed

lemma hard_run_end_fields:
  "current_pipe_gap hard_run_end = 150" "initial_spacing_mult hard_run_end = 105 / 100"
  "game_over hard_run_end" "\<not> running hard_run_end" "score hard_run_end = 80"
  "bird hard_run_end = bird init_game" "current_pipe_speed hard_run_end = 260"
proof -
  have g: "PIPE_GAP (difficulty_for 80) = 150"
    using hard_gap_int [of 80] by simp
  show "current_pipe_gap hard_run_end = 150"  "initial_spacing_mult hard_run_end = 105 / 100"
  "game_over hard_run_end" "\<not> running hard_run_end" "score hard_run_end = 80"
  "bird hard_run_end = bird init_game" "current_pipe_speed hard_run_end = 260"
    by (simp_all add: hard_run_end_def end_game_def apply_difficulty_fields g hard_rest)
qed

lemma update_difficulty:
  assumes "running g" "\<not> game_over g" "update dt now r g = Inr g'"
  shows "current_pipe_gap g' = PIPE_GAP (difficulty_for (of_int (score g)))"
    and "initial_spacing_mult g' = INITIAL_SPACING_MULT (difficulty_for (of_int (score g)))"
proof -
  consider (floor) "bird_y (bird (after_physics dt g)) \<le> 0"
    | (ceiling) "0 < bird_y (bird (after_physics dt g))" "600 \<le> top (bird (after_physics dt g))"
    | (inside) "0 < bird_y (bird (after_physics dt g))" "top (bird (after_physics dt g)) < 600"
    by linarith
  then have "current_pipe_gap g' = PIPE_GAP (difficulty_for (of_int (score g)))
       \<and> initial_spacing_mult g' = INITIAL_SPACING_MULT (difficulty_for (of_int (score g)))"
  proof cases
    case floor
    then show ?thesis
      using update_bounds(1) [OF assms(1,2), of dt now r] assms(3)
      by (auto simp: end_game_def after_physics_def apply_difficulty_fields)
  next
    case ceiling
    then show ?thesis
      using update_bounds(2) [OF assms(1,2), of dt now r] assms(3)
      by (auto simp: end_game_def after_physics_def apply_difficulty_fields)
  next
    case inside
    from update_inside [OF assms(1,2) inside, of r now] assms(3)
    obtain g4 g5 where s: "spawn_phase dt r (after_advance dt g) = Inr g4"
      and f: "g5 = g4 \<or> g5 = game_flap now g4" and u: "g' = collision_scoring g5"
      by auto
    show ?thesis
      using f spawn_phase_fields [OF s] unfolding u
      by (auto simp: collision_scoring_difficulty game_flap_fields after_advance_fields)
  qed
  then show "current_pipe_gap g' = PIPE_GAP (difficulty_for (of_int (score g)))"
    and "initial_spacing_mult g' = INITIAL_SPACING_MULT (difficulty_for (of_int (score g)))"
    by simp_all
qed

lemma restart_after_hard_tick:
  assumes "running g" "\<not> game_over g" "30 \<le> score g" "update dt now r g = Inr g1"
  shows "\<exists>g'. start_game r0 r1 g1 = Inr g' \<and> score g' = 0
           \<and> map pipe_x (pipes g') = [400, 820]
           \<and> list_all (\<lambda>p. 150 \<le> gap_size p \<and> gap_size p \<le> 200) (pipes g')"
proof -
  have d: "current_pipe_gap g1 = PIPE_GAP (difficulty_for (of_int (score g)))"
    "initial_spacing_mult g1 = 105 / 100"
    using update_difficulty [OF assms(1,2,4)] assms(3) by (simp_all add: hard_rest)
  have gap: "150 \<le> current_pipe_gap g1" "current_pipe_gap g1 \<le> 200"
    using assms(3) by (simp_all add: d hard_gap_int)
  then have "current_pipe_gap g1 \<le> 480" by simp
  from start_game_result [OF this, of r0 r1] obtain gy0 gy1 where
    "start_game r0 r1 g1 =
               Inr (g1\<lparr>pipes :=
                       [PipePair 400 (of_int gy0) (of_int (current_pipe_gap g1)) 48 600,
                        PipePair (400 + of_int (py_int (400 * initial_spacing_mult g1)))
                          (of_int gy1) (of_int (current_pipe_gap g1)) 48 600],
                     score := 0, game_over := False, running := True,
                     time_since_last_spawn := 0,
                     bird := (bird g1)\<lparr>bird_x := 100, bird_y := launch_y (bird g1), velocity := 0\<rparr>\<rparr>)"
    by blast
  then show ?thesis
    using gap by (simp add: d(2) PipePair_def py_int_numeral)
qed

lemma start_with_easy_parameters:
  assumes "current_pipe_gap g = 300" "initial_spacing_mult g = 13 / 10" "bird_height (bird g) = 64"
  shows "\<exists>gy0 gy1. 80 \<le> gy0 \<and> gy0 \<le> 260 \<and> 80 \<le> gy1 \<and> gy1 \<le> 260
           \<and> start_game r0 r1 g =
               Inr (g\<lparr>pipes := [PipePair 400 (of_int gy0) 300 48 600,
                                 PipePair 920 (of_int gy1) 300 48 600],
                     score := 0, game_over := False, running := True,
                     time_since_last_spawn := 0,
                     bird := (bird g)\<lparr>bird_x := 100, bird_y := 268, velocity := 0\<rparr>\<rparr>)"
proof -
  have "current_pipe_gap g \<le> 480" using assms(1) by simp
  from start_game_result [OF this, of r0 r1] obtain gy0 gy1 where
    r: "80 \<le> gy0" "gy0 + current_pipe_gap g \<le> 560" "80 \<le> gy1" "gy1 + current_pipe_gap g \<le> 560"
    "start_game r0 r1 g =
               Inr (g\<lparr>pipes :=
                       [PipePair 400 (of_int gy0) (of_int (current_pipe_gap g)) 48 600,
                        PipePair (400 + of_int (py_int (400 * initial_spacing_mult g)))
                          (of_int gy1) (of_int (current_pipe_gap g)) 48 600],
                     score := 0, game_over := False, running := True,
                     time_since_last_spawn := 0,
                     bird := (bird g)\<lparr>bird_x := 100, bird_y := launch_y (bird g), velocity := 0\<rparr>\<rparr>)"
    by blast
  have l: "launch_y (bird g) = 268"
    by (simp add: launch_y_def assms(3) WINDOW_HEIGHT_def)
  have "start_game r0 r1 g =
               Inr (g\<lparr>pipes := [PipePair 400 (of_int gy0) 300 48 600,
                                 PipePair 920 (of_int gy1) 300 48 600],
                     score := 0, game_over := False, running := True,
                     time_since_last_spawn := 0,
                     bird := (bird g)\<lparr>bird_x := 100, bird_y := 268, velocity := 0\<rparr>\<rparr>)"
    unfolding r(5) by (simp add: assms(1,2) l py_int_numeral)
  moreover have "gy0 \<le> 260" "gy1 \<le> 260" using r(2,4) assms(1) by simp_all
  ultimately show ?thesis using r(1,3) by blast
qed

text \<open>
  Claim C2. \<open>start_game\<close> sets the score to 0, puts the bird at \<open>(100, 268)\<close> with
  velocity 0, resets the accumulator, and builds two pipes at \<open>x = 400\<close> and
  \<open>x = 400 + int(400 * initial_spacing_mult)\<close> with the gap \<open>current_pipe_gap\<close>
  (\<open>start_game_result\<close>). It reads these two fields as the last tick left them and
  does not recompute them: with the easy values stored, as \<open>__init__\<close> stores them,
  the pipes are at 400 and 920 with gap 300 (\<open>start_with_easy_parameters\<close>); after
  any tick at a score of 30 or more they are at 400 and 820 with a gap of at most 200
  (\<open>restart_after_hard_tick\<close>). The theorem evaluates the restart after a run that
  ended at score 80: gap 150 and the second pipe at 820, where the claim says gap 300
  and 920.
\<close>

theorem restart_after_hard_run:
  "start_game 0 0 hard_run_end =
     Inr (hard_run_end\<lparr>pipes := [PipePair 400 80 150 48 600, PipePair 820 80 150 48 600],
            score := 0, game_over := False, running := True, time_since_last_spawn := 0,
            bird := (bird hard_run_end)\<lparr>bird_x := 100, bird_y := 268, velocity := 0\<rparr>\<rparr>)
   \<and> current_pipe_gap hard_run_end = 150
   \<and> initial_spacing_mult hard_run_end = 105 / 100"
  by (simp add: start_game_def Let_def hard_run_end_fields randint_def start_consts
        PIPE_MIN_GAP_Y_def WINDOW_HEIGHT_def WINDOW_WIDTH_def launch_y_def init_game_def
        BIRD_SIZE_def py_int_numeral)

subsection \<open>Spacing of the pipes in reachable states\<close>

lemma geometry_fields:
  "pipe_x (geometry p) = pipe_x p" "width_pipe (geometry p) = width_pipe p"
  "right (geometry p) = right p"
  by (simp_all add: geometry_def right_def)

lemma same_geometry_fields:
  assumes "map geometry ps' = map geometry ps"
  shows "map pipe_x ps' = map pipe_x ps" "map width_pipe ps' = map width_pipe ps"
proof -
  have "map pipe_x ps' = map pipe_x (map geometry ps')"
    by (simp add: geometry_fields comp_def)
  also have "\<dots> = map pipe_x (map geometry ps)" using assms by simp
  also have "\<dots> = map pipe_x ps" by (simp add: geometry_fields comp_def)
  finally show "map pipe_x ps' = map pipe_x ps" .
  have "map width_pipe ps' = map width_pipe (map geometry ps')"
    by (simp add: geometry_fields comp_def)
  also have "\<dots> = map width_pipe (map geometry ps)" using assms by simp
  also have "\<dots> = map width_pipe ps" by (simp add: geometry_fields comp_def)
  finally show "map width_pipe ps' = map width_pipe ps" .
qed

lemma spaced_pipes_maps:
  "spaced_pipes ps \<longleftrightarrow>
     list_all (\<lambda>w. w = 48) (map width_pipe ps)
     \<and> sorted_wrt (\<lambda>a b. a + 280 \<le> b) (map pipe_x ps)"
  by (simp add: spaced_pipes_def sorted_wrt_map list_all_iff)

lemma spaced_pipes_geometry:
  "map geometry ps' = map geometry ps \<Longrightarrow> spaced_pipes ps' = spaced_pipes ps"
  using same_geometry_fields [of ps' ps] by (simp add: spaced_pipes_maps)

lemma spaced_pipes_advance: "spaced_pipes ps \<Longrightarrow> spaced_pipes (advance_pipes dx ps)"
proof -
  assume a: "spaced_pipes ps"
  have "spaced_pipes (map (move dx) ps)"
    using a by (simp add: spaced_pipes_def sorted_wrt_map list_all_iff move_def)
  then show ?thesis
    by (auto simp: advance_pipes_def spaced_pipes_def sorted_wrt_filter list_all_iff)
qed

lemma spaced_pipes_snoc:
  assumes "spaced_pipes ps" "width_pipe n = 48"
    and "pipe_x n = max 420 ((if ps \<noteq> [] then Max (set (map pipe_x ps)) else 0) + 280)"
  shows "spaced_pipes (ps @ [n])"
proof -
  have "\<forall>p \<in> set ps. pipe_x p + 280 \<le> pipe_x n"
  proof
    fix p assume p: "p \<in> set ps"
    then have "pipe_x p \<le> Max (set (map pipe_x ps))" by simp
    moreover have "ps \<noteq> []" using p by auto
    ultimately show "pipe_x p + 280 \<le> pipe_x n"
      using assms(3) by simp
  qed
  then show ?thesis
    using assms(1,2) by (simp add: spaced_pipes_def sorted_wrt_append)
qed

lemma difficulty_spaced:
  "(INITIAL_SPACING_MULT (difficulty_for (of_int s)) = 13 / 10
    \<or> INITIAL_SPACING_MULT (difficulty_for (of_int s)) = 105 / 100)
   \<and> PIPE_GAP (difficulty_for (of_int s)) \<le> 300"
  using difficulty_spacing [of "of_int s"] difficulty_gap_bounds [of s] by simp

lemma spaced_init: "spaced init_game"
  by (simp add: spaced_def spaced_pipes_def init_game_def EASY_def BIRD_SIZE_def)

lemma spaced_flap: "spaced g \<Longrightarrow> spaced (game_flap now g)"
  by (simp add: spaced_def game_flap_fields)

lemma spaced_toggle: "spaced g \<Longrightarrow> spaced (g\<lparr>autoplay := a\<rparr>)"
  by (simp add: spaced_def)

lemma spaced_start:
  assumes "spaced g" "start_game r0 r1 g = Inr g'"
  shows "spaced g'"
proof -
  have gap: "current_pipe_gap g \<le> 480" using assms(1) by (simp add: spaced_def)
  from start_game_result [OF gap, of r0 r1] assms(2) obtain gy0 gy1 where
    g': "g' = g\<lparr>pipes :=
                       [PipePair 400 (of_int gy0) (of_int (current_pipe_gap g)) 48 600,
                        PipePair (400 + of_int (py_int (400 * initial_spacing_mult g)))
                          (of_int gy1) (of_int (current_pipe_gap g)) 48 600],
                     score := 0, game_over := False, running := True,
                     time_since_last_spawn := 0,
                     bird := (bird g)\<lparr>bird_x := 100, bird_y := launch_y (bird g), velocity := 0\<rparr>\<rparr>"
    by auto
  have "initial_spacing_mult g = 13 / 10 \<or> initial_spacing_mult g = 105 / 100"
    using assms(1) by (simp add: spaced_def)
  then have "py_int (400 * initial_spacing_mult g) = 520 \<or> py_int (400 * initial_spacing_mult g) = 420"
  proof
    assume "initial_spacing_mult g = 13 / 10"
    then have "400 * initial_spacing_mult g = 520" by simp
    then show ?thesis by (simp only: py_int_numeral) simp
  next
    assume "initial_spacing_mult g = 105 / 100"
    then have "400 * initial_spacing_mult g = 420" by simp
    then show ?thesis by (simp only: py_int_numeral) simp
  qed
  then show ?thesis
    using assms(1) unfolding g' by (auto simp: spaced_def spaced_pipes_def PipePair_def)
qed

lemma spaced_after_advance:
  assumes "spaced g"
  shows "spaced (after_advance dt g)"
  using assms difficulty_spaced [of "score g"]
  by (simp add: spaced_def after_advance_fields physics_step_fields spaced_pipes_advance)

lemma spaced_after_physics:
  assumes "spaced g"
  shows "spaced ((after_physics dt g)\<lparr>bird := (bird (after_physics dt g))\<lparr>bird_y := y\<rparr>\<rparr>)"
  using assms difficulty_spaced [of "score g"]
  by (simp add: spaced_def after_physics_def apply_difficulty_fields physics_step_fields)

lemma spaced_end_game: "spaced g \<Longrightarrow> spaced (end_game g)"
  by (simp add: spaced_def end_game_def)

lemma spaced_spawn_phase:
  assumes "spaced g" "spawn_phase dt r g = Inr g'"
  shows "spaced g'"
proof -
  have gap: "current_pipe_gap g \<le> 500" using assms(1) by (simp add: spaced_def)
  from spawn_phase_cases [OF gap, of dt r] assms(2)
  have "pipes g' = pipes g \<or> (\<exists>gy. pipes g' = pipes g @
                    [PipePair (max 420 ((if pipes g \<noteq> [] then Max (set (map pipe_x (pipes g))) else 0) + 280))
                       (of_int gy) (of_int (current_pipe_gap g)) 48 600])"
    by (auto split: if_splits)
  then have "spaced_pipes (pipes g')"
  proof
    assume "pipes g' = pipes g"
    then show ?thesis using assms(1) by (simp add: spaced_def)
  next
    assume "\<exists>gy. pipes g' = pipes g @
                    [PipePair (max 420 ((if pipes g \<noteq> [] then Max (set (map pipe_x (pipes g))) else 0) + 280))
                       (of_int gy) (of_int (current_pipe_gap g)) 48 600]"
    then obtain gy where e: "pipes g' = pipes g @
                    [PipePair (max 420 ((if pipes g \<noteq> [] then Max (set (map pipe_x (pipes g))) else 0) + 280))
                       (of_int gy) (of_int (current_pipe_gap g)) 48 600]"
      by blast
    show ?thesis
      unfolding e
      by (rule spaced_pipes_snoc) (use assms(1) in \<open>simp_all add: spaced_def PipePair_def\<close>)
  qed
  then show ?thesis
    using assms(1) spawn_phase_fields [OF assms(2)] by (simp add: spaced_def)
qed

lemma spaced_collision_scoring: "spaced g \<Longrightarrow> spaced (collision_scoring g)"
  using spaced_pipes_geometry [OF collision_scoring_fields(1), of g]
  by (simp add: spaced_def collision_scoring_fields collision_scoring_difficulty)

lemma spaced_update:
  assumes "spaced g" "update dt now r g = Inr g'"
  shows "spaced g'"
proof (cases "running g \<and> \<not> game_over g")
  case False
  then show ?thesis using assms by (auto simp: update_def)
next
  case True
  then have run: "running g" "\<not> game_over g" by simp_all
  consider (floor) "bird_y (bird (after_physics dt g)) \<le> 0"
    | (ceiling) "0 < bird_y (bird (after_physics dt g))" "600 \<le> top (bird (after_physics dt g))"
    | (inside) "0 < bird_y (bird (after_physics dt g))" "top (bird (after_physics dt g)) < 600"
    by linarith
  then show ?thesis
  proof cases
    case floor
    then show ?thesis
      using update_bounds(1) [OF run, of dt now r] assms spaced_end_game spaced_after_physics
      by auto
  next
    case ceiling
    then show ?thesis
      using update_bounds(2) [OF run, of dt now r] assms spaced_end_game spaced_after_physics
      by auto
  next
    case inside
    from update_inside [OF run inside, of r now] assms(2)
    obtain g4 g5 where s: "spawn_phase dt r (after_advance dt g) = Inr g4"
      and f: "g5 = g4 \<or> g5 = game_flap now g4" and u: "g' = collision_scoring g5"
      by auto
    have "spaced g4"
      using spaced_spawn_phase [OF spaced_after_advance [OF assms(1)] s] .
    then have "spaced g5" using f spaced_flap by auto
    then show ?thesis unfolding u by (rule spaced_collision_scoring)
  qed
qed

lemma reachable_spaced: "reachable g \<Longrightarrow> spaced g"
proof (induction rule: reachable.induct)
  case reach_init
  show ?case by (rule spaced_init)
next
  case (reach_start g r0 r1 g')
  then show ?case using spaced_start by blast
next
  case (reach_tick g dt now r g')
  then show ?case using spaced_update by blast
next
  case (reach_flap g now)
  then show ?case using spaced_flap by blast
next
  case (reach_toggle g)
  then show ?case using spaced_toggle by blast
qed

lemma hit_first:
  assumes "spaced_pipes ps" "list_all (\<lambda>p. \<not> right p < - 50) ps"
    and "check_pipes 100 ay 64 ah ps sc = (ps', sc', True)"
  shows "ps' = ps \<and> sc' = sc"
proof -
  from check_pipes_prefix [of ps 100 ay 64 ah sc] assms(3) obtain k where
    k: "k < length ps" "collides_with (ps ! k) 100 ay 64 ah"
       "ps' = map (fst \<circ> score_one 100) (take k ps) @ drop k ps"
       "sc' = sc + sum_list (map (snd \<circ> score_one 100) (take k ps))"
    by auto
  have "k = 0"
  proof (rule ccontr)
    assume "k \<noteq> 0"
    then have "0 < k" by simp
    then have "pipe_x (ps ! 0) + 280 \<le> pipe_x (ps ! k)"
      using assms(1) k(1) by (simp add: spaced_pipes_def sorted_wrt_iff_nth_less)
    moreover have "0 < length ps" using k(1) by linarith
    then have "\<not> right (ps ! 0) < - 50" "width_pipe (ps ! 0) = 48"
      using assms(1,2) by (simp_all add: spaced_pipes_def list_all_length)
    moreover have "pipe_x (ps ! k) < 100 + 64"
      using k(2) by (auto simp: collides_with_def aabb_def)
    ultimately show False by (simp add: right_def)
  qed
  then show ?thesis using k(3,4) by simp
qed

subsection \<open>Order of the operations of a tick\<close>

lemma spawn_phase_not_culled:
  assumes "current_pipe_gap g \<le> 500" "list_all (\<lambda>p. \<not> right p < - 50) (pipes g)"
    and "spawn_phase dt r g = Inr g'"
  shows "list_all (\<lambda>p. \<not> right p < - 50) (pipes g')"
proof -
  from spawn_phase_cases [OF assms(1), of dt r] assms(3)
  have "pipes g' = pipes g \<or> (\<exists>gy. pipes g' = pipes g @
                    [PipePair (max 420 ((if pipes g \<noteq> [] then Max (set (map pipe_x (pipes g))) else 0) + 280))
                       (of_int gy) (of_int (current_pipe_gap g)) 48 600])"
    by (auto split: if_splits)
  then show ?thesis
    using assms(2) by (auto simp: PipePair_def right_def)
qed

lemma advance_not_culled: "list_all (\<lambda>p. \<not> right p < - 50) (advance_pipes dx ps)"
  by (simp add: advance_pipes_def list_all_iff)

lemma no_score_on_overlap:
  assumes "spaced g" "running g" "\<not> game_over g"
    and "0 < bird_y (bird (after_physics dt g))" "top (bird (after_physics dt g)) < 600"
    and "update dt now r g = Inr g'" "game_over g'"
  shows "score g' = score g"
proof -
  from update_inside [OF assms(2,3,4,5), of r now] assms(6)
  obtain g4 g5 where s: "spawn_phase dt r (after_advance dt g) = Inr g4"
    and f: "g5 = g4 \<or> g5 = game_flap now g4" and u: "g' = collision_scoring g5"
    by auto
  have sp4: "spaced g4"
    using spaced_spawn_phase [OF spaced_after_advance [OF assms(1)] s] .
  then have sp5: "spaced g5" using f spaced_flap by auto
  have gap: "current_pipe_gap (after_advance dt g) \<le> 500"
    using spaced_after_advance [OF assms(1), of dt] by (simp add: spaced_def)
  have nc4: "list_all (\<lambda>p. \<not> right p < - 50) (pipes g4)"
    by (rule spawn_phase_not_culled [OF gap _ s]) (simp add: after_advance_fields advance_not_culled)
  have same: "pipes g5 = pipes g4" "score g5 = score g4" "game_over g5 = game_over g4"
    using f by (auto simp: game_flap_fields)
  have sc4: "score g4 = score g" "game_over g4 = game_over g"
    using spawn_phase_fields [OF s] by (simp_all add: after_advance_fields)
  obtain ps sc hit where c: "check_pipes (bird_x (bird g5)) (bird_y (bird g5))
             (bird_width (bird g5)) (bird_height (bird g5)) (pipes g5) (score g5) = (ps, sc, hit)"
    by (metis prod_cases3)
  have "hit"
    using assms(3,7) collision_scoring_result(3) [OF c] unfolding u
    by (simp add: same sc4)
  with c have c': "check_pipes 100 (bird_y (bird g5)) 64 (bird_height (bird g5)) (pipes g5) (score g5)
                     = (ps, sc, True)"
    using sp5 by (simp add: spaced_def)
  have "sc = score g5"
    using hit_first [OF _ _ c'] sp5 nc4 same by (simp add: spaced_def)
  then show ?thesis
    unfolding u using collision_scoring_result(2) [OF c] by (simp add: same sc4)
qed

text \<open>
  Claim C1, as amended. In a running tick \<open>_update\<close> recomputes the difficulty and
  steps the bird (\<open>after_physics\<close>), then checks the floor and the ceiling: on a
  breach the run ends with the pipes, the accumulator and the score untouched.
  Otherwise the pipes are moved and removed (\<open>after_advance\<close>), the spawn branch runs,
  then the autopilot when it is enabled, and only then the final loop, which for each
  pipe in list order tests the overlap, ending the run at the first overlapping pipe
  \<open>k\<close>, and then scores that pipe: the pipes before \<open>k\<close> have been scored, pipe
  \<open>k\<close> and the later ones have not. The tick never raises. In a state whose pipes are
  spaced as the program places them (every reachable state, \<open>reachable_spaced\<close>), a
  tick that ends with an overlap leaves the score as it was.
\<close>

theorem tick_order:
  "running g \<and> \<not> game_over g \<longrightarrow>
     (bird_y (bird (after_physics dt g)) \<le> 0 \<longrightarrow>
        update dt now r g =
          Inr (end_game ((after_physics dt g)\<lparr>bird := (bird (after_physics dt g))\<lparr>bird_y := 0\<rparr>\<rparr>)))
     \<and> (0 < bird_y (bird (after_physics dt g)) \<and> 600 \<le> top (bird (after_physics dt g)) \<longrightarrow>
          update dt now r g =
            Inr (end_game ((after_physics dt g)\<lparr>bird := (bird (after_physics dt g))\<lparr>bird_y :=
                   600 - bird_height (bird (after_physics dt g))\<rparr>\<rparr>)))
     \<and> (0 < bird_y (bird (after_physics dt g)) \<and> top (bird (after_physics dt g)) < 600 \<longrightarrow>
          (\<exists>g4 g5. spawn_phase dt r (after_advance dt g) = Inr g4
             \<and> (if autoplay g then autoflap_logic now g4 = Inr g5 else g5 = g4)
             \<and> update dt now r g = Inr (collision_scoring g5)
             \<and> (\<exists>k \<le> length (pipes g5).
                   (\<forall>i < k. \<not> collides_with (pipes g5 ! i) (bird_x (bird g5)) (bird_y (bird g5))
                                  (bird_width (bird g5)) (bird_height (bird g5)))
                   \<and> pipes (collision_scoring g5)
                       = map (fst \<circ> score_one (bird_x (bird g5))) (take k (pipes g5))
                         @ drop k (pipes g5)
                   \<and> score (collision_scoring g5)
                       = score g + sum_list (map (snd \<circ> score_one (bird_x (bird g5)))
                                               (take k (pipes g5)))
                   \<and> game_over (collision_scoring g5) = (k < length (pipes g5))
                   \<and> (k < length (pipes g5) \<longrightarrow>
                        collides_with (pipes g5 ! k) (bird_x (bird g5)) (bird_y (bird g5))
                          (bird_width (bird g5)) (bird_height (bird g5))))
             \<and> (spaced g \<and> game_over (collision_scoring g5) \<longrightarrow>
                  score (collision_scoring g5) = score g)))"
proof (intro impI conjI; (elim conjE)?)
  assume run: "running g" "\<not> game_over g"
  {
    assume "bird_y (bird (after_physics dt g)) \<le> 0"
    then show "update dt now r g =
          Inr (end_game ((after_physics dt g)\<lparr>bird := (bird (after_physics dt g))\<lparr>bird_y := 0\<rparr>\<rparr>))"
      by (rule update_bounds(1) [OF run])
  }
  {
    assume "0 < bird_y (bird (after_physics dt g))" "600 \<le> top (bird (after_physics dt g))"
    then show "update dt now r g =
            Inr (end_game ((after_physics dt g)\<lparr>bird := (bird (after_physics dt g))\<lparr>bird_y :=
                   600 - bird_height (bird (after_physics dt g))\<rparr>\<rparr>))"
      by (rule update_bounds(2) [OF run])
  }
  {
    assume inside: "0 < bird_y (bird (after_physics dt g))" "top (bird (after_physics dt g)) < 600"
    from update_inside [OF run inside, of r now]
    obtain g4 g5 where s: "spawn_phase dt r (after_advance dt g) = Inr g4"
      and a: "if autoplay g then autoflap_logic now g4 = Inr g5 else g5 = g4"
      and f: "g5 = g4 \<or> g5 = game_flap now g4"
      and u: "update dt now r g = Inr (collision_scoring g5)"
      by blast
    have same: "score g5 = score g" "game_over g5 = False"
      using f spawn_phase_fields [OF s] run by (auto simp: game_flap_fields after_advance_fields)
    from check_pipes_prefix [of "pipes g5" "bird_x (bird g5)" "bird_y (bird g5)"
        "bird_width (bird g5)" "bird_height (bird g5)" "score g5"]
    obtain k where k: "k \<le> length (pipes g5)"
      "check_pipes (bird_x (bird g5)) (bird_y (bird g5)) (bird_width (bird g5))
         (bird_height (bird g5)) (pipes g5) (score g5) =
        (map (fst \<circ> score_one (bird_x (bird g5))) (take k (pipes g5)) @ drop k (pipes g5),
         score g5 + sum_list (map (snd \<circ> score_one (bird_x (bird g5))) (take k (pipes g5))),
         k < length (pipes g5))"
      "\<forall>i < k. \<not> collides_with (pipes g5 ! i) (bird_x (bird g5)) (bird_y (bird g5))
                                  (bird_width (bird g5)) (bird_height (bird g5))"
      "k < length (pipes g5) \<longrightarrow> collides_with (pipes g5 ! k) (bird_x (bird g5)) (bird_y (bird g5))
                          (bird_width (bird g5)) (bird_height (bird g5))"
      by blast
    have loop: "\<exists>k \<le> length (pipes g5).
                   (\<forall>i < k. \<not> collides_with (pipes g5 ! i) (bird_x (bird g5)) (bird_y (bird g5))
                                  (bird_width (bird g5)) (bird_height (bird g5)))
                   \<and> pipes (collision_scoring g5)
                       = map (fst \<circ> score_one (bird_x (bird g5))) (take k (pipes g5))
                         @ drop k (pipes g5)
                   \<and> score (collision_scoring g5)
                       = score g + sum_list (map (snd \<circ> score_one (bird_x (bird g5)))
                                               (take k (pipes g5)))
                   \<and> game_over (collision_scoring g5) = (k < length (pipes g5))
                   \<and> (k < length (pipes g5) \<longrightarrow>
                        collides_with (pipes g5 ! k) (bird_x (bird g5)) (bird_y (bird g5))
                          (bird_width (bird g5)) (bird_height (bird g5)))"
      using k(1,3,4) collision_scoring_result [OF k(2)]
      by (intro exI [of _ k]) (simp add: same)
    have quiet: "spaced g \<and> game_over (collision_scoring g5) \<longrightarrow>
                  score (collision_scoring g5) = score g"
      using no_score_on_overlap [OF _ run inside u] by blast
    show "\<exists>g4 g5. spawn_phase dt r (after_advance dt g) = Inr g4
             \<and> (if autoplay g then autoflap_logic now g4 = Inr g5 else g5 = g4)
             \<and> update dt now r g = Inr (collision_scoring g5)
             \<and> (\<exists>k \<le> length (pipes g5).
                   (\<forall>i < k. \<not> collides_with (pipes g5 ! i) (bird_x (bird g5)) (bird_y (bird g5))
                                  (bird_width (bird g5)) (bird_height (bird g5)))
                   \<and> pipes (collision_scoring g5)
                       = map (fst \<circ> score_one (bird_x (bird g5))) (take k (pipes g5))
                         @ drop k (pipes g5)
                   \<and> score (collision_scoring g5)
                       = score g + sum_list (map (snd \<circ> score_one (bird_x (bird g5)))
                                               (take k (pipes g5)))
                   \<and> game_over (collision_scoring g5) = (k < length (pipes g5))
                   \<and> (k < length (pipes g5) \<longrightarrow>
                        collides_with (pipes g5 ! k) (bird_x (bird g5)) (bird_y (bird g5))
                          (bird_width (bird g5)) (bird_height (bird g5))))
             \<and> (spaced g \<and> game_over (collision_scoring g5) \<longrightarrow>
                  score (collision_scoring g5) = score g)"
      using s a u loop quiet by blast
  }
qed

lemma overlap_game_fields:
  "running overlap_game" "\<not> game_over overlap_game" "autoplay overlap_game"
  "score overlap_game = 0" "time_since_last_spawn overlap_game = 0"
  "last_flap_time overlap_game = 0"
  "bird overlap_game = \<lparr>bird_x = 100, bird_y = 320, bird_width = 64, bird_height = 64, velocity = 0\<rparr>"
  "pipes overlap_game = [PipePair 200 270 300 48 600, PipePair 720 100 300 48 600]"
  "current_pipe_speed overlap_game = 80" "current_pipe_gap overlap_game = 300"
  "current_spawn_interval overlap_game = 4" "initial_spacing_mult overlap_game = 13 / 10"
  by (simp_all add: overlap_game_def init_game_def BIRD_SIZE_def EASY_def)

lemma difficulty_for_0: "difficulty_for 0 = EASY"
  by (simp add: difficulty_for_def)

lemma overlap_game_difficulty: "apply_difficulty overlap_game = overlap_game"
  by (simp add: apply_difficulty_def Let_def overlap_game_fields difficulty_for_0 EASY_def)

lemma overlap_game_after_advance:
  "after_advance (1 / 2) overlap_game = overlap_game_advanced\<lparr>time_since_last_spawn := 0\<rparr>"
  by (simp add: after_advance_def after_physics_def overlap_game_difficulty overlap_game_advanced_def
        overlap_game_fields physics_step_def Let_def GRAVITY_def advance_pipes_def move_def
        right_def PipePair_def)

lemma overlap_game_spawn_phase:
  "spawn_phase (1 / 2) 0 (overlap_game_advanced\<lparr>time_since_last_spawn := 0\<rparr>)
     = Inr overlap_game_advanced"
  by (simp add: spawn_phase_def Let_def overlap_game_advanced_def overlap_game_fields)

lemma overlap_game_advanced_fields:
  "running overlap_game_advanced" "\<not> game_over overlap_game_advanced"
  "autoplay overlap_game_advanced" "score overlap_game_advanced = 0"
  "last_flap_time overlap_game_advanced = 0"
  "bird overlap_game_advanced
     = \<lparr>bird_x = 100, bird_y = 200, bird_width = 64, bird_height = 64, velocity = - 240\<rparr>"
  "pipes overlap_game_advanced = [PipePair 160 270 300 48 600, PipePair 680 100 300 48 600]"
  "current_pipe_speed overlap_game_advanced = 80"
  by (simp_all add: overlap_game_advanced_def overlap_game_fields)

lemma flap_events_34: 
  "flap_events (3 / 4) 0 = [(End, 3 / 4)]"
  "flap_events (3 / 4) 1 = [(Flap, 0), (End, 3 / 4)]"
  by (simp_all add: flap_events_def)

lemma overlap_game_predictions:
  "predict_center_with_flaps overlap_game_advanced (3 / 4) 0 = - 83"
  "predict_center_with_flaps overlap_game_advanced (3 / 4) (Suc 0) = 382"
proof -
  show "predict_center_with_flaps overlap_game_advanced (3 / 4) 0 = - 83"
    by (simp add: predict_unsorted flap_events_34 overlap_game_advanced_fields GRAVITY_def
          power2_eq_square)
  show "predict_center_with_flaps overlap_game_advanced (3 / 4) (Suc 0) = 382"
    using flap_events_34(2)
    by (simp add: predict_unsorted overlap_game_advanced_fields GRAVITY_def FLAP_VELOCITY_def
          power2_eq_square)
qed

lemma overlap_game_choice:
  "chosen_flaps overlap_game_advanced (PipePair 160 270 300 48 600) (3 / 4) = Some 1"
  unfolding chosen_flaps_def upt4
  by (simp add: inside_gap_def Let_def overlap_game_predictions PipePair_def margin_def)

lemma overlap_game_autopilot:
  "autoflap_logic 1 overlap_game_advanced = Inr (game_flap 1 overlap_game_advanced)"
  using overlap_game_choice
  by (simp add: autoflap_logic_def next_pipe_ahead_def overlap_game_advanced_fields Let_def
        py_div_def PipePair_def)

lemma overlap_game_flap:
  "game_flap 1 overlap_game_advanced
     = overlap_game_advanced\<lparr>last_flap_time := 1,
         bird := (bird overlap_game_advanced)\<lparr>velocity := FLAP_VELOCITY\<rparr>\<rparr>"
  by (simp add: game_flap_cases overlap_game_advanced_fields MIN_FLAP_INTERVAL_def)

lemma overlap_game_collides:
  "collides_with (PipePair 160 270 300 48 600) 100 200 64 64"
  by (simp add: collides_with_def aabb_def PipePair_def)

lemma overlap_game_collision_scoring:
  "collision_scoring (game_flap 1 overlap_game_advanced) = end_game (game_flap 1 overlap_game_advanced)"
  "collision_scoring overlap_game_advanced = end_game overlap_game_advanced"
  using overlap_game_collides
  by (simp_all add: collision_scoring_def overlap_game_flap overlap_game_advanced_fields end_game_def)

lemma overlap_game_update:
  "update (1 / 2) 1 0 overlap_game = Inr (end_game (game_flap 1 overlap_game_advanced))"
proof -
  have b: "0 < bird_y (bird (after_physics (1 / 2) overlap_game))"
     "top (bird (after_physics (1 / 2) overlap_game)) < 600"
    by (simp_all add: after_advance_fields physics_step_def Let_def overlap_game_fields top_def GRAVITY_def)
  from update_inside [OF overlap_game_fields(1,2) b, of 0 1]
  show ?thesis
    by (auto simp: overlap_game_after_advance overlap_game_spawn_phase overlap_game_fields
          overlap_game_autopilot overlap_game_collision_scoring)
qed

lemma tick_spec_order_running:
  assumes "running g" "\<not> game_over g"
  shows "tick_spec_order dt now r g =
     (case spawn_phase dt r (after_advance dt g) of
        Inl e \<Rightarrow> Inl e
      | Inr g4 \<Rightarrow>
          (let g5 = collision_and_bounds g4
           in if game_over g5 then Inr g5
              else case (if autoplay g5 then autoflap_logic now g5 else Inr g5) of
                     Inl e \<Rightarrow> Inl e
                   | Inr g6 \<Rightarrow> Inr (scoring_pass g6)))"
  using assms
  by (simp add: tick_spec_order_def after_advance_def after_physics_def Let_def
        apply_difficulty_fields)

lemma overlap_game_spec_order:
  "tick_spec_order (1 / 2) 1 0 overlap_game = Inr (end_game overlap_game_advanced)"
proof -
  have c: "collision_and_bounds overlap_game_advanced = end_game overlap_game_advanced"
    using overlap_game_collides
    by (simp add: collision_and_bounds_def overlap_game_advanced_fields top_def WINDOW_HEIGHT_def)
  show ?thesis
    unfolding tick_spec_order_running [OF overlap_game_fields(1,2)] overlap_game_after_advance
      overlap_game_spawn_phase
    by (simp add: c end_game_def)
qed

lemma spaced_overlap_game: "spaced overlap_game"
  by (simp add: spaced_def spaced_pipes_def overlap_game_fields PipePair_def)

theorem tick_order_witness:
  "spaced overlap_game
   \<and> update (1 / 2) 1 0 overlap_game = Inr (collision_scoring (game_flap 1 overlap_game_advanced))
   \<and> game_over (collision_scoring (game_flap 1 overlap_game_advanced))
   \<and> score (collision_scoring (game_flap 1 overlap_game_advanced)) = score overlap_game
   \<and> update 1 0 0 falling_game
       = Inr (end_game ((after_physics 1 falling_game)\<lparr>bird :=
                (bird (after_physics 1 falling_game))\<lparr>bird_y := 0\<rparr>\<rparr>))"
proof -
  have b: "0 < bird_y (bird (after_physics (1 / 2) overlap_game))"
     "top (bird (after_physics (1 / 2) overlap_game)) < 600"
    by (simp_all add: after_advance_fields physics_step_def Let_def overlap_game_fields top_def
          GRAVITY_def)
  from tick_order [of overlap_game "1 / 2" 1 0] overlap_game_fields(1,2) b
  obtain g4 g5 where s: "spawn_phase (1 / 2) 0 (after_advance (1 / 2) overlap_game) = Inr g4"
    and a: "if autoplay overlap_game then autoflap_logic 1 g4 = Inr g5 else g5 = g4"
    and u: "update (1 / 2) 1 0 overlap_game = Inr (collision_scoring g5)"
    and q: "spaced overlap_game \<and> game_over (collision_scoring g5) \<longrightarrow>
              score (collision_scoring g5) = score overlap_game"
    by blast
  have g4: "g4 = overlap_game_advanced"
    using s by (simp add: overlap_game_after_advance overlap_game_spawn_phase)
  have g5: "g5 = game_flap 1 overlap_game_advanced"
    using a by (simp add: g4 overlap_game_fields overlap_game_autopilot)
  have go: "game_over (collision_scoring (game_flap 1 overlap_game_advanced))"
    by (simp add: overlap_game_collision_scoring end_game_def)
  have f: "running falling_game" "\<not> game_over falling_game"
    "bird_y (bird (after_physics 1 falling_game)) \<le> 0"
    by (simp_all add: falling_game_def init_game_def after_physics_def physics_step_def Let_def
          GRAVITY_def WINDOW_HEIGHT_def BIRD_SIZE_def apply_difficulty_fields)
  have fl: "update 1 0 0 falling_game
       = Inr (end_game ((after_physics 1 falling_game)\<lparr>bird :=
                (bird (after_physics 1 falling_game))\<lparr>bird_y := 0\<rparr>\<rparr>))"
    using tick_order [of falling_game 1 0 0] f by blast
  show ?thesis
    using spaced_overlap_game u q go fl unfolding g5 by blast
qed

lemma diving_game_fields:
  "running diving_game" "\<not> game_over diving_game" "\<not> autoplay diving_game"
  "score diving_game = 0" "time_since_last_spawn diving_game = 0"
  "bird diving_game = \<lparr>bird_x = 100, bird_y = 268, bird_width = 64, bird_height = 64, velocity = - 500\<rparr>"
  "pipes diving_game = [scenario_pipe]" "current_pipe_speed diving_game = 80"
  "current_spawn_interval diving_game = 4"
  by (simp_all add: diving_game_def scenario_game_def init_game_def BIRD_SIZE_def
        WINDOW_HEIGHT_def EASY_def)

lemma diving_game_difficulty: "apply_difficulty diving_game = diving_game"
  by (simp add: apply_difficulty_def Let_def diving_game_def scenario_game_def init_game_def
        difficulty_for_0 EASY_def)

lemma diving_game_after_physics:
  "after_physics 1 diving_game
     = diving_game\<lparr>bird := (bird diving_game)\<lparr>velocity := - 980, bird_y := - 712\<rparr>\<rparr>"
  by (simp add: after_physics_def physics_step_def Let_def diving_game_fields GRAVITY_def
        diving_game_difficulty)

lemma diving_game_update:
  "update 1 0 0 diving_game
     = Inr (end_game (diving_game\<lparr>bird :=
              (bird diving_game)\<lparr>velocity := - 980, bird_y := 0\<rparr>\<rparr>))"
  using update_bounds(1) [OF diving_game_fields(1,2), of 1 0 0]
  by (simp add: diving_game_after_physics)

lemma diving_game_spec_order:
  "tick_spec_order 1 0 0 diving_game
     = Inr (end_game (diving_game\<lparr>bird :=
              (bird diving_game)\<lparr>velocity := - 980, bird_y := 0\<rparr>,
              pipes := [move (- 80) scenario_pipe], time_since_last_spawn := 1\<rparr>))"
proof -
  have a: "after_advance 1 diving_game
     = diving_game\<lparr>bird := (bird diving_game)\<lparr>velocity := - 980, bird_y := - 712\<rparr>,
          pipes := [move (- 80) scenario_pipe]\<rparr>"
    by (simp add: after_advance_def diving_game_after_physics diving_game_fields
          advance_pipes_def move_def right_def scenario_fields)
  have s: "spawn_phase 1 0 (after_advance 1 diving_game)
     = Inr ((after_advance 1 diving_game)\<lparr>time_since_last_spawn := 1\<rparr>)"
    by (simp add: spawn_phase_def Let_def after_advance_fields diving_game_fields difficulty_for_0
          EASY_def)
  show ?thesis
    unfolding tick_spec_order_running [OF diving_game_fields(1,2)] s
    by (simp add: a collision_and_bounds_def Let_def end_game_def)
qed

lemma diving_differs:
  "update 1 0 0 diving_game \<noteq> tick_spec_order 1 0 0 diving_game"
proof
  assume "update 1 0 0 diving_game = tick_spec_order 1 0 0 diving_game"
  then have "time_since_last_spawn (end_game (diving_game\<lparr>bird :=
              (bird diving_game)\<lparr>velocity := - 980, bird_y := 0\<rparr>\<rparr>))
     = time_since_last_spawn (end_game (diving_game\<lparr>bird :=
              (bird diving_game)\<lparr>velocity := - 980, bird_y := 0\<rparr>,
              pipes := [move (- 80) scenario_pipe], time_since_last_spawn := 1\<rparr>))"
    unfolding diving_game_update diving_game_spec_order by simp
  then show False
    by (simp add: end_game_def diving_game_fields)
qed

text \<open>
  The order the claim states is not the order of the code. In the first tick the
  autopilot flaps (velocity 380, flap time 1) and then the overlap ends the run,
  whereas with the autopilot after the collision checks the run would end with the
  velocity -240 of the physics step. In the second tick the bird reaches the floor and
  the run ends with the pipe where it was and the accumulator at 0, whereas with the
  bounds check after the obstacle step the pipe would have moved and the accumulator
  would be 1.
\<close>

theorem tick_order_counterexample:
  "update (1 / 2) 1 0 overlap_game
     = Inr (end_game (overlap_game_advanced\<lparr>last_flap_time := 1,
              bird := (bird overlap_game_advanced)\<lparr>velocity := FLAP_VELOCITY\<rparr>\<rparr>))
   \<and> tick_spec_order (1 / 2) 1 0 overlap_game = Inr (end_game overlap_game_advanced)
   \<and> velocity (bird overlap_game_advanced) = - 240
   \<and> update (1 / 2) 1 0 overlap_game \<noteq> tick_spec_order (1 / 2) 1 0 overlap_game
   \<and> update 1 0 0 diving_game
       = Inr (end_game (diving_game\<lparr>bird :=
                (bird diving_game)\<lparr>velocity := - 980, bird_y := 0\<rparr>\<rparr>))
   \<and> tick_spec_order 1 0 0 diving_game
       = Inr (end_game (diving_game\<lparr>bird :=
                (bird diving_game)\<lparr>velocity := - 980, bird_y := 0\<rparr>,
                pipes := [move (- 80) scenario_pipe], time_since_last_spawn := 1\<rparr>))
   \<and> update 1 0 0 diving_game \<noteq> tick_spec_order 1 0 0 diving_game"
proof -
  have "end_game (overlap_game_advanced\<lparr>last_flap_time := 1,
              bird := (bird overlap_game_advanced)\<lparr>velocity := FLAP_VELOCITY\<rparr>\<rparr>)
        \<noteq> end_game overlap_game_advanced"
  proof
    assume "end_game (overlap_game_advanced\<lparr>last_flap_time := 1,
              bird := (bird overlap_game_advanced)\<lparr>velocity := FLAP_VELOCITY\<rparr>\<rparr>)
        = end_game overlap_game_advanced"
    then have "last_flap_time (end_game (overlap_game_advanced\<lparr>last_flap_time := 1,
              bird := (bird overlap_game_advanced)\<lparr>velocity := FLAP_VELOCITY\<rparr>\<rparr>))
        = last_flap_time (end_game overlap_game_advanced)"
      by simp
    then show False
      by (simp add: end_game_def overlap_game_advanced_fields)
  qed
  then have "update (1 / 2) 1 0 overlap_game
     = Inr (end_game (overlap_game_advanced\<lparr>last_flap_time := 1,
              bird := (bird overlap_game_advanced)\<lparr>velocity := FLAP_VELOCITY\<rparr>\<rparr>))
   \<and> tick_spec_order (1 / 2) 1 0 overlap_game = Inr (end_game overlap_game_advanced)
   \<and> velocity (bird overlap_game_advanced) = - 240
   \<and> update (1 / 2) 1 0 overlap_game \<noteq> tick_spec_order (1 / 2) 1 0 overlap_game"
    by (simp add: overlap_game_update overlap_game_spec_order overlap_game_flap
          overlap_game_advanced_fields)
  then show ?thesis
    using diving_game_update diving_game_spec_order diving_differs by blast
qed

subsection \<open>Scoring\<close>









end
